theory Spec2Isabelle
  imports Main "HOL-Library.Word" "HOL-Library.Sublist"
begin

section \<open>Go values, errors and panics\<close>

text \<open>
  The program is a single Go file, \<^verbatim>\<open>main.go\<close>. Strings are byte sequences
  (\<^typ>\<open>string\<close>), Go's \<^verbatim>\<open>int\<close> is the 64-bit two's complement integer of the
  platforms the program is built for (\<^typ>\<open>64 word\<close>, so \<open>+\<close> and \<open>*\<close> wrap as
  Go's do). Every failure of the program is a panic; a function that can panic returns
  \<open>panic + 'a\<close>, with \<open>Inl\<close> for the panic.
\<close>

type_synonym go_int = "64 word"

text \<open>
  \<^verbatim>\<open>strconv.NumError\<close> carries one of two causes; every other \<^verbatim>\<open>error\<close>
  value comes from the operating system, the network or the hosting service and is
  kept as an opaque text.
\<close>

datatype num_err = ErrSyntax | ErrRange

datatype go_error =
    NumError string string num_err
  | ExtError string

text \<open>
  The three ways the program panics: \<^verbatim>\<open>panic(msg)\<close> with a message (directly or
  through \<^verbatim>\<open>ensure\<close>), \<^verbatim>\<open>panicOnErr(err, doing)\<close>, whose message is
  \<^verbatim>\<open>"failed while <doing>: <err.Error()>"\<close>, and the run-time panic of a slice
  expression \<^verbatim>\<open>s[:hi]\<close> with \<open>hi\<close> beyond the length of \<open>s\<close>
  (\<^verbatim>\<open>slice bounds out of range [:hi] with length n\<close>).
\<close>

datatype panic =
    Panic string
  | PanicOnErr string go_error
  | SliceBoundsOutOfRange nat nat

definition panicOnErr :: "go_error option \<Rightarrow> string \<Rightarrow> panic + unit" where
  "panicOnErr err doing =
     (case err of None \<Rightarrow> Inr () | Some e \<Rightarrow> Inl (PanicOnErr doing e))"

definition ensure :: "bool \<Rightarrow> string \<Rightarrow> panic + unit" where
  "ensure b msg = (if b then Inr () else Inl (Panic msg))"

section \<open>Library functions the program calls\<close>

subsection \<open>\<^verbatim>\<open>strings.SplitN\<close> with a one-byte separator\<close>

text \<open>
  \<^verbatim>\<open>strings.SplitN(s, sep, n)\<close> for \<open>n \<ge> 0\<close>: no piece for \<open>n = 0\<close>; otherwise at
  most \<open>n\<close> pieces, cut at the first \<open>n - 1\<close> separators, the last piece being the
  unsplit rest.
\<close>

fun SplitN :: "string \<Rightarrow> char \<Rightarrow> nat \<Rightarrow> string list" where
  "SplitN s sep 0 = []"
| "SplitN s sep (Suc 0) = [s]"
| "SplitN s sep (Suc (Suc n)) =
     (if sep \<in> set s
      then takeWhile (\<lambda>c. c \<noteq> sep) s # SplitN (tl (dropWhile (\<lambda>c. c \<noteq> sep) s)) sep (Suc n)
      else [s])"

subsection \<open>\<^verbatim>\<open>strconv.Atoi\<close>\<close>

definition is_digit :: "char \<Rightarrow> bool" where
  "is_digit c = ((48::nat) \<le> of_char c \<and> (of_char c :: nat) \<le> 57)"

definition digit_val :: "char \<Rightarrow> nat" where
  "digit_val c = of_char c - 48"

text \<open>
  The digit loop of \<^verbatim>\<open>strconv.ParseUint(s, 10, 64)\<close>: the first byte that is not
  a decimal digit is a syntax error, a value beyond \<open>2^64 - 1\<close> a range error,
  whichever comes first from the left.
\<close>

fun parse_uint_loop :: "nat \<Rightarrow> string \<Rightarrow> num_err + nat" where
  "parse_uint_loop n [] = Inr n"
| "parse_uint_loop n (c # cs) =
     (if \<not> is_digit c then Inl ErrSyntax
      else if 10 * n + digit_val c > 2 ^ 64 - 1 then Inl ErrRange
      else parse_uint_loop (10 * n + digit_val c) cs)"

text \<open>
  \<^verbatim>\<open>strconv.Atoi(s)\<close>: an optional sign, then at least one decimal digit and
  nothing else; the value must lie in \<open>-2^63 .. 2^63 - 1\<close>. The error is a
  \<^verbatim>\<open>*NumError{Func: "Atoi", Num: s, Err: ...}\<close>.
\<close>

definition Atoi :: "string \<Rightarrow> go_error + go_int" where
  "Atoi s =
     (let neg = (s \<noteq> [] \<and> hd s = CHR ''-'');
          body = (if s \<noteq> [] \<and> (hd s = CHR ''-'' \<or> hd s = CHR ''+'') then tl s else s)
      in if body = [] then Inl (NumError ''Atoi'' s ErrSyntax)
         else case parse_uint_loop 0 body of
                Inl e \<Rightarrow> Inl (NumError ''Atoi'' s e)
              | Inr un \<Rightarrow>
                  if \<not> neg \<and> un \<ge> 2 ^ 63 then Inl (NumError ''Atoi'' s ErrRange)
                  else if neg \<and> un > 2 ^ 63 then Inl (NumError ''Atoi'' s ErrRange)
                  else Inr (if neg then - of_nat un else of_nat un))"

section \<open>Version naming\<close>

text \<open>The map literal of \<^verbatim>\<open>patch_to_flavour\<close>.\<close>

definition flavour_table :: "(string \<times> string) list" where
  "flavour_table =
     [(''1.'', ''classic''), (''2.'', ''classic-tbc''), (''3.'', ''classic-wotlk'')]"

text \<open>
  \<^verbatim>\<open>patch_to_flavour\<close> looks \<^verbatim>\<open>patch[:2]\<close> up in the table. The slice
  expression panics when the string has fewer than two bytes; the function has no check
  of its own.
\<close>

definition patch_to_flavour :: "string \<Rightarrow> panic + string" where
  "patch_to_flavour patch =
     (if length patch < 2 then Inl (SliceBoundsOutOfRange 2 (length patch))
      else case map_of flavour_table (take 2 patch) of
             None \<Rightarrow> Inr ''mainline''
           | Some entry \<Rightarrow> Inr entry)"

definition patch_to_interface :: "string \<Rightarrow> panic + go_int" where
  "patch_to_interface patch =
     (let bits = SplitN patch CHR ''.'' 3 in
      case ensure (length bits > 1) (''failed to parse game version: '' @ patch) of
        Inl p \<Rightarrow> Inl p
      | Inr _ \<Rightarrow>
          (case Atoi (bits ! 0) of
             Inl err \<Rightarrow> Inl (PanicOnErr ''parsing major portion of game version'' err)
           | Inr major \<Rightarrow>
               (case Atoi (bits ! 1) of
                  Inl err \<Rightarrow> Inl (PanicOnErr ''parsing minor portion of game version'' err)
                | Inr minor \<Rightarrow> Inr ((10000 * major) + (100 * minor)))))"


section \<open>The addon descriptor and the metadata document\<close>

record Addon =
  Slug :: string
  Name :: string
  Url :: string
  Version :: string
  PatchList :: "string list"

subsection \<open>Formatting\<close>

text \<open>The verb \<^verbatim>\<open>%d\<close> of \<^verbatim>\<open>fmt.Sprintf\<close> for an \<^verbatim>\<open>int\<close>: decimal, with a minus sign.\<close>

definition digit_char :: "nat \<Rightarrow> char" where
  "digit_char d = char_of (48 + d)"

function nat_to_dec :: "nat \<Rightarrow> string" where
  "nat_to_dec n = (if n < 10 then [digit_char n] else nat_to_dec (n div 10) @ [digit_char (n mod 10)])"
  by pat_completeness auto
termination
  by (relation "measure id") auto

declare nat_to_dec.simps [simp del]

definition FormatInt :: "int \<Rightarrow> string" where
  "FormatInt i = (if i < 0 then CHR ''-'' # nat_to_dec (nat (- i)) else nat_to_dec (nat i))"

text \<open>\<^verbatim>\<open>strings.Join(elems, sep)\<close>.\<close>

fun Join :: "string list \<Rightarrow> string \<Rightarrow> string" where
  "Join [] sep = []"
| "Join [x] sep = x"
| "Join (x # y # r) sep = x @ sep @ Join (y # r) sep"

subsection \<open>\<^verbatim>\<open>gen_release_json\<close>\<close>

text \<open>
  The two raw string literals of \<^verbatim>\<open>gen_release_json\<close>, each applied to its
  arguments as \<^verbatim>\<open>fmt.Sprintf\<close> does: \<^verbatim>\<open>%s\<close> inserts the bytes of the string
  as they are.
\<close>

definition release_flavour_json :: "string \<Rightarrow> go_int \<Rightarrow> string" where
  \<open>release_flavour_json flavour iface =
     ''\<newline>                {\<newline>                    "flavor": "'' @ flavour @
     ''",\<newline>                    "interface": '' @ FormatInt (sint iface) @
     ''\<newline>                }''\<close>

definition release_json :: "string \<Rightarrow> string \<Rightarrow> string \<Rightarrow> string \<Rightarrow> string" where
  \<open>release_json name version filename metadata_json =
     ''{\<newline>    "releases": [\<newline>        {\<newline>            "name": "'' @ name @
     ''",\<newline>            "version": "'' @ version @
     ''",\<newline>            "filename": "'' @ filename @
     ''",\<newline>            "nolib": false,\<newline>            "metadata": ['' @ metadata_json @
     ''\<newline>            ]\<newline>        }\<newline>    ]\<newline>}\<newline>''\<close>

text \<open>The loop over \<^verbatim>\<open>addon.PatchList\<close>: it stops at the first patch that panics.\<close>

fun gen_metadata :: "string list \<Rightarrow> panic + string list" where
  "gen_metadata [] = Inr []"
| "gen_metadata (patch # rest) =
     (case patch_to_flavour patch of
        Inl p \<Rightarrow> Inl p
      | Inr flavour \<Rightarrow>
          (case patch_to_interface patch of
             Inl p \<Rightarrow> Inl p
           | Inr iface \<Rightarrow>
               (case gen_metadata rest of
                  Inl p \<Rightarrow> Inl p
                | Inr metadata \<Rightarrow> Inr (release_flavour_json flavour iface # metadata))))"

definition gen_release_json :: "Addon \<Rightarrow> string \<Rightarrow> string \<Rightarrow> panic + string" where
  "gen_release_json addon addon_output_path zip_output_filename =
     (case gen_metadata (PatchList addon) of
        Inl p \<Rightarrow> Inl p
      | Inr metadata \<Rightarrow>
          Inr (release_json (Name addon) (Version addon) zip_output_filename
                 (Join metadata '', '')))"


section \<open>The outside world\<close>

text \<open>
  Everything the program does to its surroundings is an event, recorded in the order in
  which it happens: a line on the error stream, a shell command, a file system call, an
  HTTP request, a call to the hosting service.
\<close>

record UploadOptions =
  UploadName :: string
  Label :: string
  MediaType :: string

datatype event =
    Stderr string
  | Exec string string
  | Abs string
  | Stat string
  | HttpGet string
  | WriteFile string string
  | CreateRelease string string string string
  | Open string
  | UploadReleaseAsset string string string go_int UploadOptions string

text \<open>
  \<^verbatim>\<open>cmd.Run()\<close> ends in one of three ways, each with the captured standard output and
  standard error: no error; an \<^verbatim>\<open>*exec.ExitError\<close>, whose \<^verbatim>\<open>ExitCode()\<close> is kept;
  any other error (the command could not be started, or its output could not be copied).
\<close>

datatype run_result =
    RunNil string string
  | RunExitError go_int string string
  | RunOtherError go_error string string

text \<open>
  \<^verbatim>\<open>os.Stat\<close> as far as \<^verbatim>\<open>file_exists\<close> looks at it: the file was found; the
  error is one for which \<^verbatim>\<open>errors.Is(err, os.ErrNotExist)\<close> holds; the error is any
  other one (a directory of the path may not be searched, or a component of the path is
  not a directory, so that there is no file at the path).
\<close>

datatype stat_result = StatInfo | StatErrNotExist | StatOtherError

text \<open>An HTTP response: its status code and what \<^verbatim>\<open>ioutil.ReadAll(resp.Body)\<close> gives.\<close>

record http_response =
  StatusCode :: go_int
  Body :: "string \<times> go_error option"

text \<open>
  The world answers every call. An answer may depend on all that happened before, so
  each answering function takes the events so far. Functions of the Go library whose
  result depends on the platform or on Unicode tables are taken as they come:
  \<^verbatim>\<open>strings.TrimSpace\<close>, \<^verbatim>\<open>strings.ToLower\<close>, \<^verbatim>\<open>filepath.Join\<close> of two
  elements, \<^verbatim>\<open>json.Unmarshal\<close> into a list of addons, and the path of \<^verbatim>\<open>bash\<close>
  that \<^verbatim>\<open>cmd.String()\<close> prints.
\<close>

record world =
  strings_TrimSpace :: "string \<Rightarrow> string"
  strings_ToLower :: "string \<Rightarrow> string"
  filepath_Join :: "string \<Rightarrow> string \<Rightarrow> string"
  json_Unmarshal :: "string \<Rightarrow> Addon list \<times> go_error option"
  bash_path :: string
  cmd_Run :: "event list \<Rightarrow> string \<Rightarrow> string \<Rightarrow> run_result"
  filepath_Abs :: "event list \<Rightarrow> string \<Rightarrow> string \<times> go_error option"
  os_Stat :: "event list \<Rightarrow> string \<Rightarrow> stat_result"
  http_Get :: "event list \<Rightarrow> string \<Rightarrow> http_response \<times> go_error option"
  os_WriteFile :: "event list \<Rightarrow> string \<Rightarrow> string \<Rightarrow> go_error option"
  Repositories_CreateRelease ::
    "event list \<Rightarrow> string \<Rightarrow> string \<Rightarrow> string \<Rightarrow> string \<Rightarrow> go_int \<times> go_error option"
  os_Open :: "event list \<Rightarrow> string \<Rightarrow> go_error option"
  Repositories_UploadReleaseAsset ::
    "event list \<Rightarrow> string \<Rightarrow> string \<Rightarrow> string \<Rightarrow> go_int \<Rightarrow> UploadOptions \<Rightarrow> string
       \<Rightarrow> go_error option"

text \<open>
  A computation takes the events so far and returns its result, or the panic that ended
  it, with the events extended by its own.
\<close>

type_synonym 'a io = "event list \<Rightarrow> (panic + 'a) \<times> event list"

definition io_return :: "'a \<Rightarrow> 'a io" where
  "io_return x = (\<lambda>t. (Inr x, t))"

definition io_panic :: "panic \<Rightarrow> 'a io" where
  "io_panic p = (\<lambda>t. (Inl p, t))"

definition io_bind :: "'a io \<Rightarrow> ('a \<Rightarrow> 'b io) \<Rightarrow> 'b io" where
  "io_bind m f = (\<lambda>t. case m t of (Inl p, t') \<Rightarrow> (Inl p, t') | (Inr x, t') \<Rightarrow> f x t')"

definition io_lift :: "panic + 'a \<Rightarrow> 'a io" where
  "io_lift r = (\<lambda>t. (r, t))"

definition io_call :: "event \<Rightarrow> (event list \<Rightarrow> 'a) \<Rightarrow> 'a io" where
  "io_call e answer = (\<lambda>t. (Inr (answer t), t @ [e]))"

section \<open>The program\<close>

definition stderr :: "string \<Rightarrow> unit io" where
  "stderr msg = io_call (Stderr msg) (\<lambda>_. ())"

definition file_exists :: "world \<Rightarrow> string \<Rightarrow> bool io" where
  "file_exists w path =
     io_bind (io_call (Stat path) (\<lambda>t. os_Stat w t path))
       (\<lambda>err. io_return (err \<noteq> StatErrNotExist))"

text \<open>
  \<^verbatim>\<open>run_cmd\<close>: the return code starts at 0 and is replaced only when the error of
  \<^verbatim>\<open>cmd.Run()\<close> is an \<^verbatim>\<open>*exec.ExitError\<close>.
\<close>

definition run_cmd :: "world \<Rightarrow> string \<Rightarrow> string \<Rightarrow> (go_int \<times> string \<times> string) io" where
  "run_cmd w command path =
     io_bind (stderr (''executing '' @ bash_path w @ '' -c '' @ command @ '' in '' @ path))
       (\<lambda>_. io_bind (io_call (Exec command path) (\<lambda>t. cmd_Run w t command path))
         (\<lambda>res. io_return
            (case res of
               RunNil out err \<Rightarrow> (0, strings_TrimSpace w out, strings_TrimSpace w err)
             | RunExitError code out err \<Rightarrow>
                 (code, strings_TrimSpace w out, strings_TrimSpace w err)
             | RunOtherError e out err \<Rightarrow>
                 (0, strings_TrimSpace w out, strings_TrimSpace w err))))"

fun run_all_cmd :: "world \<Rightarrow> string list \<Rightarrow> string \<Rightarrow> unit io" where
  "run_all_cmd w [] cwd = io_return ()"
| "run_all_cmd w (cmd # command_list) cwd =
     io_bind (run_cmd w cmd cwd)
       (\<lambda>(rc, _, stderr').
          io_bind (io_lift (ensure (rc = 0)
                     (''command '' @ [CHR 0x27] @ cmd @ [CHR 0x27] @ '' failed: '' @ stderr')))
            (\<lambda>_. run_all_cmd w command_list cwd))"

subsection \<open>The production addon source\<close>

text \<open>The interface \<^verbatim>\<open>IMirror\<close>: its two methods.\<close>

record IMirror =
  fetch_addon_list :: "Addon list io"
  download_addon :: "Addon \<Rightarrow> string \<Rightarrow> string io"

definition TukuiMirror_fetch_addon_list :: "world \<Rightarrow> Addon list io" where
  "TukuiMirror_fetch_addon_list w =
     io_bind (io_call (HttpGet ''https://api.tukui.org/v1/addons'')
                (\<lambda>t. http_Get w t ''https://api.tukui.org/v1/addons''))
       (\<lambda>(resp, err). io_bind (io_lift (panicOnErr err ''fetching addon list''))
         (\<lambda>_. io_bind (io_lift (ensure (StatusCode resp = 200)
                          ''non-200 response fetching addon list''))
           (\<lambda>_. io_bind (io_lift (panicOnErr (snd (Body resp))
                            ''reading response body into a byte array''))
             (\<lambda>_. io_bind (io_lift (panicOnErr (snd (json_Unmarshal w (fst (Body resp))))
                              ''deserialising response bytes into a list of addon structs''))
               (\<lambda>_. io_return (fst (json_Unmarshal w (fst (Body resp)))))))))"

definition TukuiMirror_download_addon :: "world \<Rightarrow> Addon \<Rightarrow> string \<Rightarrow> string io" where
  "TukuiMirror_download_addon w addon output_path =
     (let addon_filename = Slug addon @ ''--'' @ Version addon @ ''.zip'';
          zip_output_path = filepath_Join w output_path addon_filename
      in io_bind (file_exists w zip_output_path)
           (\<lambda>exists. if exists then io_return zip_output_path
              else io_bind (stderr (''downloading: '' @ Url addon))
                (\<lambda>_. io_bind (io_call (HttpGet (Url addon)) (\<lambda>t. http_Get w t (Url addon)))
                  (\<lambda>(resp, err). io_bind (io_lift (panicOnErr err ''downloading addon to file''))
                    (\<lambda>_. io_bind (io_lift (ensure (StatusCode resp = 200)
                                     ''non-200 response downloading zip file''))
                      (\<lambda>_. io_bind (io_lift (panicOnErr (snd (Body resp))
                                       ''reading bytes from response body''))
                        (\<lambda>_. io_bind (io_call (WriteFile zip_output_path (fst (Body resp)))
                                       (\<lambda>t. os_WriteFile w t zip_output_path (fst (Body resp))))
                          (\<lambda>err. io_bind (io_lift (panicOnErr err ''writing bytes to zip file''))
                            (\<lambda>_. io_bind (stderr (''wrote: '' @ zip_output_path))
                              (\<lambda>_. io_return zip_output_path))))))))))"

definition TukuiMirror :: "world \<Rightarrow> IMirror" where
  "TukuiMirror w =
     \<lparr>fetch_addon_list = TukuiMirror_fetch_addon_list w,
      download_addon = TukuiMirror_download_addon w\<rparr>"

subsection \<open>The mirror repository\<close>

definition write_release_json :: "world \<Rightarrow> string \<Rightarrow> string \<Rightarrow> string io" where
  "write_release_json w release_json_text addon_output_dir =
     (let release_json_output_path = filepath_Join w addon_output_dir ''release.json''
      in io_bind (io_call (WriteFile release_json_output_path release_json_text)
                    (\<lambda>t. os_WriteFile w t release_json_output_path release_json_text))
           (\<lambda>err. io_bind (io_lift (panicOnErr err ''writing release.json to file''))
             (\<lambda>_. io_bind (stderr (''wrote: '' @ release_json_output_path))
               (\<lambda>_. io_return release_json_output_path))))"

text \<open>\<^verbatim>\<open>strings.Contains\<close>.\<close>

fun Contains :: "string \<Rightarrow> string \<Rightarrow> bool" where
  "Contains [] substr = (substr = [])"
| "Contains (c # cs) substr = (prefix substr (c # cs) \<or> Contains cs substr)"

definition fetch_addon_version :: "world \<Rightarrow> string \<Rightarrow> string io" where
  "fetch_addon_version w addon_output_dir =
     io_bind (run_cmd w ''git describe --tags --abbrev=0'' addon_output_dir)
       (\<lambda>(rc, stdout', stderr').
          if rc \<noteq> 0 then
            (if Contains stderr' ''fatal: No names found, cannot describe anything.'' \<or>
                Contains stderr' ''fatal: No tags can describe''
             then io_return []
             else io_bind (io_lift (ensure (rc = 0) (''failed to fetch latest tag: '' @ stderr')))
                    (\<lambda>_. io_return stdout'))
          else io_return stdout')"

definition tag_addon :: "world \<Rightarrow> string \<Rightarrow> string \<Rightarrow> unit io" where
  "tag_addon w version addon_output_dir =
     run_all_cmd w
       [''git commit -m '' @ version @ '' --allow-empty'',
        ''git tag '' @ version,
        ''git push'',
        ''git push --tags'']
       addon_output_dir"

definition fetch_repo :: "world \<Rightarrow> Addon \<Rightarrow> string \<Rightarrow> unit io" where
  "fetch_repo w addon script_path =
     run_all_cmd w
       [''rm -rf '' @ Slug addon,
        ''git clone ssh://git@github.com/ogri-la/'' @ Slug addon]
       script_path"

subsection \<open>The hosted release\<close>

text \<open>\<^verbatim>\<open>filepath.Ext\<close> and \<^verbatim>\<open>filepath.Base\<close>, with \<^verbatim>\<open>/\<close> as the separator.\<close>

definition Ext :: "string \<Rightarrow> string" where
  "Ext path =
     (let elem = takeWhile (\<lambda>c. c \<noteq> CHR ''/'') (rev path)
      in if CHR ''.'' \<in> set elem
         then CHR ''.'' # rev (takeWhile (\<lambda>c. c \<noteq> CHR ''.'') elem)
         else [])"

definition Base :: "string \<Rightarrow> string" where
  "Base path =
     (if path = [] then ''.''
      else let elem = rev (takeWhile (\<lambda>c. c \<noteq> CHR ''/'')
                             (dropWhile (\<lambda>c. c = CHR ''/'') (rev path)))
           in if elem = [] then ''/'' else elem)"

definition guess_media_type :: "world \<Rightarrow> string \<Rightarrow> panic + string" where
  "guess_media_type w path =
     (let ext = strings_ToLower w (Ext path)
      in if ext = ''.zip'' then Inr ''application/zip''
         else if ext = ''.json'' then Inr ''application/json''
         else Inl (Panic (''failed to guess mime for given path: '' @ path)))"

text \<open>
  The loop of \<^verbatim>\<open>create_tag_release\<close> over the assets. The media type is guessed
  while the upload options of that asset are built, before the file is opened.
\<close>

fun upload_assets :: "world \<Rightarrow> Addon \<Rightarrow> string \<Rightarrow> go_int \<Rightarrow> string list \<Rightarrow> unit io" where
  "upload_assets w addon token release_id [] = io_return ()"
| "upload_assets w addon token release_id (asset_path # asset_list) =
     io_bind (io_lift (guess_media_type w asset_path))
       (\<lambda>media_type.
          let upload_opts = \<lparr>UploadName = Base asset_path, Label = Base asset_path,
                             MediaType = media_type\<rparr>
          in io_bind (io_call (Open asset_path) (\<lambda>t. os_Open w t asset_path))
               (\<lambda>err. io_bind (io_lift (panicOnErr err ''opening asset''))
                 (\<lambda>_. io_bind
                    (io_call (UploadReleaseAsset token ''ogri-la'' (Slug addon) release_id
                                upload_opts asset_path)
                       (\<lambda>t. Repositories_UploadReleaseAsset w t token ''ogri-la'' (Slug addon)
                               release_id upload_opts asset_path))
                    (\<lambda>err. io_bind (io_lift (panicOnErr err ''uploading asset''))
                      (\<lambda>_. upload_assets w addon token release_id asset_list)))))"

definition create_tag_release :: "world \<Rightarrow> Addon \<Rightarrow> string \<Rightarrow> string list \<Rightarrow> unit io" where
  "create_tag_release w addon token asset_list =
     io_bind (io_call (CreateRelease token ''ogri-la'' (Slug addon) (Version addon))
                (\<lambda>t. Repositories_CreateRelease w t token ''ogri-la'' (Slug addon) (Version addon)))
       (\<lambda>(release_id, err). io_bind (io_lift (panicOnErr err ''creating a Github release''))
         (\<lambda>_. upload_assets w addon token release_id asset_list))"

subsection \<open>The orchestrator\<close>

text \<open>One turn of the loop of \<^verbatim>\<open>mirror\<close>, for one addon.\<close>

definition mirror_addon :: "world \<Rightarrow> IMirror \<Rightarrow> string \<Rightarrow> string \<Rightarrow> Addon \<Rightarrow> unit io" where
  "mirror_addon w app script_path token addon =
     io_bind (fetch_repo w addon script_path)
       (\<lambda>_. io_bind (io_call (Abs (Slug addon)) (\<lambda>t. filepath_Abs w t (Slug addon)))
         (\<lambda>(addon_output_dir, err).
            io_bind (io_lift (panicOnErr err ''creating an absolute path for addon's output''))
              (\<lambda>_. io_bind (fetch_addon_version w addon_output_dir)
                (\<lambda>current_version.
                   let latest_version = Version addon in
                   if current_version = latest_version
                   then stderr (current_version @ '' == '' @ latest_version @ '', skipping'')
                   else
                     io_bind (stderr (''update detected for '' @ Name addon @ '': '' @ [CHR 0x27]
                                @ current_version @ [CHR 0x27] @ '' => '' @ [CHR 0x27]
                                @ latest_version @ [CHR 0x27]))
                       (\<lambda>_. io_bind (download_addon app addon addon_output_dir)
                         (\<lambda>zip_output_path.
                            let zip_output_filename = Base zip_output_path in
                            io_bind (io_lift (gen_release_json addon addon_output_dir
                                       zip_output_filename))
                              (\<lambda>release_json_text.
                                 io_bind (write_release_json w release_json_text addon_output_dir)
                                   (\<lambda>release_json_path.
                                      io_bind (tag_addon w (Version addon) addon_output_dir)
                                        (\<lambda>_. create_tag_release w addon token
                                                [zip_output_path, release_json_path])))))))))"

fun mirror_loop :: "world \<Rightarrow> IMirror \<Rightarrow> string \<Rightarrow> string \<Rightarrow> Addon list \<Rightarrow> unit io" where
  "mirror_loop w app script_path token [] = io_return ()"
| "mirror_loop w app script_path token (addon # addon_list) =
     io_bind (mirror_addon w app script_path token addon)
       (\<lambda>_. mirror_loop w app script_path token addon_list)"

definition mirror :: "world \<Rightarrow> IMirror \<Rightarrow> string \<Rightarrow> string \<Rightarrow> unit io" where
  "mirror w app script_path token =
     io_bind (fetch_addon_list app) (\<lambda>addon_list. mirror_loop w app script_path token addon_list)"

section \<open>Notions the properties are stated with\<close>

text \<open>
  A component of a patch string is numeric when it is an optional sign followed by at
  least one decimal digit and nothing else.
\<close>

definition sign_stripped :: "string \<Rightarrow> string" where
  "sign_stripped s = (if s \<noteq> [] \<and> (hd s = CHR ''-'' \<or> hd s = CHR ''+'') then tl s else s)"

definition numeric :: "string \<Rightarrow> bool" where
  "numeric s = (sign_stripped s \<noteq> [] \<and> list_all is_digit (sign_stripped s))"

definition executing :: "world \<Rightarrow> string \<Rightarrow> string \<Rightarrow> event" where
  "executing w command path =
     Stderr (''executing '' @ bash_path w @ '' -c '' @ command @ '' in '' @ path)"

definition known_media_type :: "world \<Rightarrow> string \<Rightarrow> bool" where
  "known_media_type w path =
     (strings_ToLower w (Ext path) = ''.zip'' \<or> strings_ToLower w (Ext path) = ''.json'')"

definition media_type_of :: "world \<Rightarrow> string \<Rightarrow> string" where
  "media_type_of w path = (case guess_media_type w path of Inl _ \<Rightarrow> [] | Inr m \<Rightarrow> m)"

definition asset_events :: "world \<Rightarrow> Addon \<Rightarrow> string \<Rightarrow> go_int \<Rightarrow> string \<Rightarrow> event list" where
  "asset_events w addon token release_id asset_path =
     [Open asset_path,
      UploadReleaseAsset token ''ogri-la'' (Slug addon) release_id
        \<lparr>UploadName = Base asset_path, Label = Base asset_path,
         MediaType = media_type_of w asset_path\<rparr> asset_path]"

definition release_events :: "world \<Rightarrow> Addon \<Rightarrow> string \<Rightarrow> go_int \<Rightarrow> string list \<Rightarrow> event list" where
  "release_events w addon token release_id asset_list =
     CreateRelease token ''ogri-la'' (Slug addon) (Version addon) #
     concat (map (asset_events w addon token release_id) asset_list)"

text \<open>m, started after t, emits a prefix of evs, and all of evs when it returns\<close>

definition emits :: "'a io \<Rightarrow> event list \<Rightarrow> event list \<Rightarrow> bool" where
  "emits m t evs =
     (\<exists>n. snd (m t) = t @ take n evs \<and> (\<forall>x. fst (m t) = Inr x \<longrightarrow> snd (m t) = t @ evs))"

definition cmd_events :: "world \<Rightarrow> string list \<Rightarrow> string \<Rightarrow> event list" where
  "cmd_events w cmds cwd = concat (map (\<lambda>c. [executing w c cwd, Exec c cwd]) cmds)"

definition tag_commands :: "string \<Rightarrow> string list" where
  "tag_commands version =
     [''git commit -m '' @ version @ '' --allow-empty'',
      ''git tag '' @ version,
      ''git push'',
      ''git push --tags'']"

definition local_events :: "world \<Rightarrow> Addon \<Rightarrow> string \<Rightarrow> string \<Rightarrow> event list" where
  "local_events w addon dir doc =
     [WriteFile (filepath_Join w dir ''release.json'') doc,
      Stderr (''wrote: '' @ filepath_Join w dir ''release.json'')] @
     cmd_events w (tag_commands (Version addon)) dir"

definition update_detected :: "Addon \<Rightarrow> string \<Rightarrow> event" where
  "update_detected addon current_version =
     Stderr (''update detected for '' @ Name addon @ '': '' @ [CHR 0x27] @ current_version @
             [CHR 0x27] @ '' => '' @ [CHR 0x27] @ Version addon @ [CHR 0x27])"

definition publish_events ::
  "world \<Rightarrow> Addon \<Rightarrow> string \<Rightarrow> string \<Rightarrow> string \<Rightarrow> string \<Rightarrow> event list \<Rightarrow> event list" where
  "publish_events w addon token dir zpath doc t =
     local_events w addon dir doc @
     release_events w addon token
       (fst (Repositories_CreateRelease w (t @ local_events w addon dir doc) token ''ogri-la''
               (Slug addon) (Version addon)))
       [zpath, filepath_Join w dir ''release.json'']"

definition is_space :: "char \<Rightarrow> bool" where
  "is_space c = ((of_char c :: nat) \<in> {9, 10, 11, 12, 13, 32})"

definition ascii_TrimSpace :: "string \<Rightarrow> string" where
  "ascii_TrimSpace s = rev (dropWhile is_space (rev (dropWhile is_space s)))"

definition ascii_ToLower :: "string \<Rightarrow> string" where
  "ascii_ToLower s =
     map (\<lambda>c. if (65::nat) \<le> of_char c \<and> (of_char c :: nat) \<le> 90
              then char_of (of_char c + (32::nat)) else c) s"

definition written :: "event list \<Rightarrow> string \<Rightarrow> bool" where
  "written t path = list_ex (\<lambda>e. case e of WriteFile p _ \<Rightarrow> p = path | _ \<Rightarrow> False) t"

definition demo_world :: "string \<Rightarrow> world" where
  "demo_world tag =
     \<lparr>strings_TrimSpace = ascii_TrimSpace,
      strings_ToLower = ascii_ToLower,
      filepath_Join = (\<lambda>dir name. dir @ ''/'' @ name),
      json_Unmarshal = (\<lambda>_. ([], None)),
      bash_path = ''/usr/bin/bash'',
      cmd_Run = (\<lambda>t command path.
         if command = ''git describe --tags --abbrev=0'' then RunNil (tag @ ''\<newline>'') []
         else RunNil [] []),
      filepath_Abs = (\<lambda>t path. (''/srv/'' @ path, None)),
      os_Stat = (\<lambda>t path. if written t path then StatInfo else StatErrNotExist),
      http_Get = (\<lambda>t url. (\<lparr>StatusCode = 200, Body = (''PK'', None)\<rparr>, None)),
      os_WriteFile = (\<lambda>t path content. None),
      Repositories_CreateRelease = (\<lambda>t token owner repo tag. (7, None)),
      os_Open = (\<lambda>t path. None),
      Repositories_UploadReleaseAsset = (\<lambda>t token owner repo release_id opts path. None)\<rparr>"

definition demo_addon :: Addon where
  "demo_addon =
     \<lparr>Slug = ''elvui'', Name = ''ElvUI'', Url = ''https://api.tukui.org/v1/download/elvui'',
      Version = ''13.33'', PatchList = [''10.1.0'']\<rparr>"

definition demo_doc :: string where
  "demo_doc = release_json ''ElvUI'' ''13.33'' ''elvui--13.33.zip''
                (release_flavour_json ''mainline'' 100100)"

text \<open>
  What \<^verbatim>\<open>cmd.Run()\<close> returns for the \<open>k\<close>-th command of a list that
  \<^verbatim>\<open>run_all_cmd\<close> runs after the events \<open>t\<close>, once the commands before it have been
  run; whether a command ended with a non-zero exit status; and the panic of
  \<^verbatim>\<open>run_all_cmd\<close> for a command with the captured standard error \<open>err\<close>.
\<close>

definition exited_nonzero :: "run_result \<Rightarrow> bool" where
  "exited_nonzero r = (case r of RunExitError code out err \<Rightarrow> code \<noteq> 0 | _ \<Rightarrow> False)"

definition command_outcome :: "world \<Rightarrow> string list \<Rightarrow> string \<Rightarrow> event list \<Rightarrow> nat \<Rightarrow> run_result" where
  "command_outcome w cmds cwd t k =
     cmd_Run w (t @ cmd_events w (take k cmds) cwd @ [executing w (cmds ! k) cwd]) (cmds ! k) cwd"

definition command_failed :: "world \<Rightarrow> string \<Rightarrow> string \<Rightarrow> panic" where
  "command_failed w cmd err =
     Panic (''command '' @ [CHR 0x27] @ cmd @ [CHR 0x27] @ '' failed: '' @ strings_TrimSpace w err)"

text \<open>
  The example world with the outcome of \<^verbatim>\<open>git push --tags\<close> set to \<open>r\<close>, and the
  events of a turn for the example addon in it up to the clone, the tag query and the
  download.
\<close>

definition demo_world_push :: "run_result \<Rightarrow> world" where
  "demo_world_push r =
     (demo_world ''13.32'')
       \<lparr>cmd_Run := (\<lambda>t command path.
          if command = ''git push --tags'' then r
          else cmd_Run (demo_world ''13.32'') t command path)\<rparr>"

definition demo_cloned :: "event list" where
  "demo_cloned =
     [Stderr ''executing /usr/bin/bash -c rm -rf elvui in /srv'', Exec ''rm -rf elvui'' ''/srv'',
      Stderr ''executing /usr/bin/bash -c git clone ssh://git@github.com/ogri-la/elvui in /srv'',
      Exec ''git clone ssh://git@github.com/ogri-la/elvui'' ''/srv'']"

definition demo_described :: "event list" where
  "demo_described = demo_cloned @
     [Abs ''elvui'',
      Stderr ''executing /usr/bin/bash -c git describe --tags --abbrev=0 in /srv/elvui'',
      Exec ''git describe --tags --abbrev=0'' ''/srv/elvui'']"

definition demo_downloaded :: "event list" where
  "demo_downloaded = demo_described @
     [update_detected demo_addon ''13.32'',
      Stat ''/srv/elvui/elvui--13.33.zip'',
      Stderr ''downloading: https://api.tukui.org/v1/download/elvui'',
      HttpGet ''https://api.tukui.org/v1/download/elvui'',
      WriteFile ''/srv/elvui/elvui--13.33.zip'' ''PK'',
      Stderr ''wrote: /srv/elvui/elvui--13.33.zip'']"

section \<open>Reading a metadata document\<close>

text \<open>
  The metadata document is JSON text. What it says is read off with a reader for the
  grammar of RFC 8259: the text is cut into tokens, and the tokens are parsed into a
  value. An object keeps its members in the order of the text, duplicates included; a
  number without fraction and exponent is read as an integer, any other number is kept as
  its text. The reader works on bytes, as Go strings are bytes: inside a string a byte
  from 32 on, other than the double quote and the backslash, stands for itself.
\<close>

datatype json =
    JNull
  | JBool bool
  | JInt int
  | JNumber string
  | JString string
  | JArray "json list"
  | JObject "(string \<times> json) list"

datatype token =
    TLBrace | TRBrace | TLBracket | TRBracket | TColon | TComma
  | TString string | TInt int | TNumber string | TTrue | TFalse | TNull

definition is_hex :: "char \<Rightarrow> bool" where
  "is_hex c =
     (let n = (of_char c :: nat)
      in (48 \<le> n \<and> n \<le> 57) \<or> (97 \<le> n \<and> n \<le> 102) \<or> (65 \<le> n \<and> n \<le> 70))"

definition hex_val :: "char \<Rightarrow> nat" where
  "hex_val c =
     (let n = (of_char c :: nat)
      in if n \<le> 57 then n - 48 else if 97 \<le> n then n - 87 else n - 55)"

text \<open>The four hexadecimal digits after \<^verbatim>\<open>\u\<close>, as a number.\<close>

definition hex4 :: "string \<Rightarrow> nat option" where
  "hex4 s =
     (if 4 \<le> length s \<and> list_all is_hex (take 4 s)
      then Some (4096 * hex_val (s ! 0) + 256 * hex_val (s ! 1) + 16 * hex_val (s ! 2)
                 + hex_val (s ! 3))
      else None)"

text \<open>
  The UTF-8 bytes of a code point.
\<close>

definition utf8 :: "nat \<Rightarrow> string" where
  "utf8 n =
     (if n < 128 then [char_of n]
      else if n < 2048 then [char_of (192 + n div 64), char_of (128 + n mod 64)]
      else if n < 65536 then
        [char_of (224 + n div 4096), char_of (128 + n div 64 mod 64), char_of (128 + n mod 64)]
      else
        [char_of (240 + n div 262144), char_of (128 + n div 4096 mod 64),
         char_of (128 + n div 64 mod 64), char_of (128 + n mod 64)])"

text \<open>
  The character that a backslash and a character other than \<open>u\<close> stand for.
\<close>

definition simple_escape :: "char \<Rightarrow> char option" where
  "simple_escape e =
     (if e = CHR 0x22 then Some (CHR 0x22)
      else if e = CHR 0x5C then Some (CHR 0x5C)
      else if e = CHR ''/'' then Some (CHR ''/'')
      else if e = CHR ''b'' then Some (CHR 0x08)
      else if e = CHR ''f'' then Some (CHR 0x0C)
      else if e = CHR ''n'' then Some (CHR 0x0A)
      else if e = CHR ''r'' then Some (CHR 0x0D)
      else if e = CHR ''t'' then Some (CHR 0x09)
      else None)"

text \<open>
  The text after an opening quote, up to the closing quote: the string it denotes and the
  rest of the text. A control character may not stand in a string; an escaped surrogate
  without its partner is read as U+FFFD.
\<close>

definition decoded :: "string \<Rightarrow> (string \<times> string) option \<Rightarrow> (string \<times> string) option" where
  "decoded d r = map_option (\<lambda>(s, rest). (d @ s, rest)) r"

fun lex_string :: "string \<Rightarrow> (string \<times> string) option" where
  "lex_string [] = None"
| "lex_string (c # cs) =
     (if c = CHR 0x22 then Some ([], cs)
      else if c = CHR 0x5C then
        (case cs of
           [] \<Rightarrow> None
         | e # r \<Rightarrow>
             if e = CHR ''u'' then
               (case hex4 r of
                  None \<Rightarrow> None
                | Some u \<Rightarrow>
                    (case (if 55296 \<le> u \<and> u < 56320 \<and> take 2 (drop 4 r) = [CHR 0x5C, CHR ''u'']
                           then hex4 (drop 6 r) else None) of
                       Some l \<Rightarrow>
                         if 56320 \<le> l \<and> l < 57344
                         then decoded (utf8 (65536 + (u - 55296) * 1024 + (l - 56320)))
                                (lex_string (drop 10 r))
                         else decoded (utf8 65533) (lex_string (drop 4 r))
                     | None \<Rightarrow>
                         decoded (utf8 (if 55296 \<le> u \<and> u < 57344 then 65533 else u))
                           (lex_string (drop 4 r))))
             else (case simple_escape e of
                     None \<Rightarrow> None
                   | Some d \<Rightarrow> decoded [d] (lex_string r)))
      else if (of_char c :: nat) < 32 then None
      else decoded [c] (lex_string cs))"

text \<open>
  The value of a sequence of decimal digits.
\<close>

fun dec_value :: "nat \<Rightarrow> string \<Rightarrow> nat" where
  "dec_value n [] = n"
| "dec_value n (c # cs) = dec_value (10 * n + digit_val c) cs"

text \<open>The integer part of a number: an optional minus sign, then \<open>0\<close> or a digit
  from 1 to 9 followed by digits.\<close>

definition lex_int_part :: "string \<Rightarrow> (bool \<times> string \<times> string) option" where
  "lex_int_part s =
     (let neg = (s \<noteq> [] \<and> hd s = CHR ''-'');
          s1 = (if neg then tl s else s);
          ip = takeWhile is_digit s1
      in if ip = [] \<or> (1 < length ip \<and> hd ip = CHR ''0'') then None
         else Some (neg, ip, dropWhile is_digit s1))"

text \<open>The optional fraction: a point followed by at least one digit.\<close>

definition lex_frac :: "string \<Rightarrow> (bool \<times> string) option" where
  "lex_frac r =
     (if r \<noteq> [] \<and> hd r = CHR ''.''
      then (if takeWhile is_digit (tl r) = [] then None
            else Some (True, dropWhile is_digit (tl r)))
      else Some (False, r))"

text \<open>The optional exponent: \<open>e\<close> or \<open>E\<close>, an optional sign, at least one digit.\<close>

definition lex_exp :: "string \<Rightarrow> (bool \<times> string) option" where
  "lex_exp r =
     (if r \<noteq> [] \<and> (hd r = CHR ''e'' \<or> hd r = CHR ''E'')
      then (let r' = (if tl r \<noteq> [] \<and> (hd (tl r) = CHR ''+'' \<or> hd (tl r) = CHR ''-'')
                      then tl (tl r) else tl r)
            in if takeWhile is_digit r' = [] then None
               else Some (True, dropWhile is_digit r'))
      else Some (False, r))"

definition lex_number :: "string \<Rightarrow> (token \<times> string) option" where
  "lex_number s =
     (case lex_int_part s of
        None \<Rightarrow> None
      | Some (neg, ip, r1) \<Rightarrow>
          (case lex_frac r1 of
             None \<Rightarrow> None
           | Some (has_frac, r2) \<Rightarrow>
               (case lex_exp r2 of
                  None \<Rightarrow> None
                | Some (has_exp, r3) \<Rightarrow>
                    if has_frac \<or> has_exp
                    then Some (TNumber (take (length s - length r3) s), r3)
                    else Some (TInt (if neg then - int (dec_value 0 ip)
                                     else int (dec_value 0 ip)), r3))))"

definition is_ws :: "char \<Rightarrow> bool" where
  "is_ws c = (c = CHR '' '' \<or> c = CHR 0x09 \<or> c = CHR 0x0A \<or> c = CHR 0x0D)"

lemma decoded_rest:
  "decoded d x = Some (s, r) \<Longrightarrow> \<exists>s'. x = Some (s', r)"
  by (cases x) (auto simp: decoded_def)

lemma lex_string_rest: "lex_string cs = Some (s, r) \<Longrightarrow> length r < length cs"
proof (induction "length cs" arbitrary: cs s r rule: less_induct)
  case less
  have IH: "\<And>x s' r'. lex_string x = Some (s', r') \<Longrightarrow> length x < length cs \<Longrightarrow> length r' < length x"
    using less.hyps by fastforce
  from less.prems show ?case
    apply (cases cs)
     apply simp
    apply (auto split: if_splits list.splits option.splits dest!: decoded_rest)
    apply ((drule IH)?, simp, simp?)+
    done
qed


lemma dropWhile_shorter:
  "takeWhile P x \<noteq> [] \<Longrightarrow> length (dropWhile P x) < length x"
  by (cases x) (auto simp: less_Suc_eq_le length_dropWhile_le split: if_splits)

lemma lex_int_part_rest: "lex_int_part s = Some (neg, ip, r) \<Longrightarrow> length r < length s"
proof -
  assume a: "lex_int_part s = Some (neg, ip, r)"
  define s1 where "s1 = (if s \<noteq> [] \<and> hd s = CHR ''-'' then tl s else s)"
  from a have "takeWhile is_digit s1 \<noteq> []"
    unfolding lex_int_part_def Let_def s1_def by (auto split: if_splits)
  moreover from a have "r = dropWhile is_digit s1"
    unfolding lex_int_part_def Let_def s1_def by (auto split: if_splits)
  ultimately have "length r < length s1" by (simp add: dropWhile_shorter)
  moreover have "length s1 \<le> length s" unfolding s1_def by simp
  ultimately show ?thesis by simp
qed

lemma lex_frac_rest: "lex_frac r = Some (b, r') \<Longrightarrow> length r' \<le> length r"
  unfolding lex_frac_def
  using length_dropWhile_le [of is_digit "tl r"]
  by (auto split: if_splits)

lemma lex_exp_rest: "lex_exp r = Some (b, r') \<Longrightarrow> length r' \<le> length r"
  unfolding lex_exp_def Let_def
  using length_dropWhile_le [of is_digit "tl r"] length_dropWhile_le [of is_digit "tl (tl r)"]
  by (auto split: if_splits)

lemma lex_number_rest: "lex_number s = Some (t, r) \<Longrightarrow> length r < length s"
  unfolding lex_number_def
  by (auto split: option.splits prod.splits if_splits
      dest!: lex_int_part_rest lex_frac_rest lex_exp_rest)


text \<open>
  The tokens of a text, if all of it is tokens and white space.
\<close>

function lex :: "string \<Rightarrow> token list option" where
  "lex [] = Some []"
| "lex (c # cs) =
     (if is_ws c then lex cs
      else if c = CHR ''{'' then map_option (Cons TLBrace) (lex cs)
      else if c = CHR ''}'' then map_option (Cons TRBrace) (lex cs)
      else if c = CHR ''['' then map_option (Cons TLBracket) (lex cs)
      else if c = CHR '']'' then map_option (Cons TRBracket) (lex cs)
      else if c = CHR '':'' then map_option (Cons TColon) (lex cs)
      else if c = CHR '','' then map_option (Cons TComma) (lex cs)
      else if c = CHR 0x22 then
        (case lex_string cs of
           None \<Rightarrow> None
         | Some (s, r) \<Rightarrow> map_option (Cons (TString s)) (lex r))
      else if c = CHR ''-'' \<or> is_digit c then
        (case lex_number (c # cs) of
           None \<Rightarrow> None
         | Some (t, r) \<Rightarrow> map_option (Cons t) (lex r))
      else if take 4 (c # cs) = ''true'' then map_option (Cons TTrue) (lex (drop 3 cs))
      else if take 5 (c # cs) = ''false'' then map_option (Cons TFalse) (lex (drop 4 cs))
      else if take 4 (c # cs) = ''null'' then map_option (Cons TNull) (lex (drop 3 cs))
      else None)"
  by pat_completeness auto
termination
proof (relation "measure length", goal_cases)
  case 1
  show ?case by simp
next
  case (9 c cs x2 x y)
  then show ?case using lex_string_rest [of cs x y] by simp
next
  case (10 c cs x2 x y)
  then show ?case using lex_number_rest [of "c # cs" x y] by simp
qed simp_all


text \<open>The start of an object member: a string and a colon.\<close>

definition member_key :: "token list \<Rightarrow> (string \<times> token list) option" where
  "member_key ts = (case ts of TString k # TColon # r \<Rightarrow> Some (k, r) | _ \<Rightarrow> None)"

lemma member_key_rest: "member_key ts = Some (k, r) \<Longrightarrow> length r < length ts"
  by (auto simp: member_key_def split: list.splits token.splits)

definition starts_with :: "token \<Rightarrow> token list \<Rightarrow> bool" where
  "starts_with t ts = (ts \<noteq> [] \<and> hd ts = t)"

text \<open>
  A value; the elements of an array after its opening bracket; the members of an object
  after its opening brace; each with the tokens that are left.
\<close>

function parse_value :: "token list \<Rightarrow> (json \<times> token list) option"
  and parse_elems :: "token list \<Rightarrow> (json list \<times> token list) option"
  and parse_members :: "token list \<Rightarrow> ((string \<times> json) list \<times> token list) option"
where
  "parse_value [] = None"
| "parse_value (TString s # ts) = Some (JString s, ts)"
| "parse_value (TInt i # ts) = Some (JInt i, ts)"
| "parse_value (TNumber x # ts) = Some (JNumber x, ts)"
| "parse_value (TTrue # ts) = Some (JBool True, ts)"
| "parse_value (TFalse # ts) = Some (JBool False, ts)"
| "parse_value (TNull # ts) = Some (JNull, ts)"
| "parse_value (TLBracket # ts) =
     (if starts_with TRBracket ts then Some (JArray [], tl ts)
      else map_option (apfst JArray) (parse_elems ts))"
| "parse_value (TLBrace # ts) =
     (if starts_with TRBrace ts then Some (JObject [], tl ts)
      else map_option (apfst JObject) (parse_members ts))"
| "parse_value (TRBrace # ts) = None"
| "parse_value (TRBracket # ts) = None"
| "parse_value (TColon # ts) = None"
| "parse_value (TComma # ts) = None"
| "parse_elems ts =
     (case parse_value ts of
        None \<Rightarrow> None
      | Some (v, r) \<Rightarrow>
          if starts_with TComma r then
            (if length (tl r) < length ts then map_option (apfst (Cons v)) (parse_elems (tl r))
             else None)
          else if starts_with TRBracket r then Some ([v], tl r)
          else None)"
| "parse_members ts =
     (case member_key ts of
        None \<Rightarrow> None
      | Some (k, r) \<Rightarrow>
          (case parse_value r of
             None \<Rightarrow> None
           | Some (v, r1) \<Rightarrow>
               if starts_with TComma r1 then
                 (if length (tl r1) < length ts
                  then map_option (apfst (Cons (k, v))) (parse_members (tl r1))
                  else None)
               else if starts_with TRBrace r1 then Some ([(k, v)], tl r1)
               else None))"
  by pat_completeness auto
termination
  by (relation "measure (\<lambda>x. case x of
          Inl ts \<Rightarrow> 2 * length ts
        | Inr (Inl ts) \<Rightarrow> 2 * length ts + 1
        | Inr (Inr ts) \<Rightarrow> 2 * length ts + 1)") (auto dest: member_key_rest)

declare parse_elems.simps [simp del] parse_members.simps [simp del]

text \<open>
  A JSON text is one value with nothing after it.
\<close>

definition parse_json :: "string \<Rightarrow> json option" where
  "parse_json s =
     (case lex s of
        None \<Rightarrow> None
      | Some ts \<Rightarrow> (case parse_value ts of Some (v, []) \<Rightarrow> Some v | _ \<Rightarrow> None))"

text \<open>
  A string is plain when it holds no double quote, no backslash and no control character:
  between two quotes it then denotes itself.
\<close>

definition json_plain :: "string \<Rightarrow> bool" where
  "json_plain s = list_all (\<lambda>c. c \<noteq> CHR 0x22 \<and> c \<noteq> CHR 0x5C \<and> (32::nat) \<le> of_char c) s"

text \<open>
  The value a metadata document is to carry: one release with a name, a version, a file
  name, \<^verbatim>\<open>nolib\<close> false and, for each pair of the metadata, an object with its flavour
  and its interface number.
\<close>

definition metadata_entry :: "string \<Rightarrow> go_int \<Rightarrow> json" where
  "metadata_entry flavour iface =
     JObject [(''flavor'', JString flavour), (''interface'', JInt (sint iface))]"

definition release_document ::
  "string \<Rightarrow> string \<Rightarrow> string \<Rightarrow> (string \<times> go_int) list \<Rightarrow> json" where
  "release_document name version filename metadata =
     JObject
       [(''releases'',
         JArray
           [JObject
              [(''name'', JString name),
               (''version'', JString version),
               (''filename'', JString filename),
               (''nolib'', JBool False),
               (''metadata'', JArray (map (\<lambda>(f, i). metadata_entry f i) metadata))]])]"

text \<open>
  The tokens of that document.
\<close>

definition entry_tokens :: "string \<Rightarrow> go_int \<Rightarrow> token list" where
  "entry_tokens f i =
     [TLBrace, TString ''flavor'', TColon, TString f, TComma,
      TString ''interface'', TColon, TInt (sint i), TRBrace]"

fun metadata_tokens :: "(string \<times> go_int) list \<Rightarrow> token list" where
  "metadata_tokens [] = []"
| "metadata_tokens [(f, i)] = entry_tokens f i"
| "metadata_tokens ((f, i) # y # r) = entry_tokens f i @ TComma # metadata_tokens (y # r)"

definition document_tokens ::
  "string \<Rightarrow> string \<Rightarrow> string \<Rightarrow> (string \<times> go_int) list \<Rightarrow> token list" where
  "document_tokens name version filename metadata =
     [TLBrace, TString ''releases'', TColon, TLBracket, TLBrace,
      TString ''name'', TColon, TString name, TComma,
      TString ''version'', TColon, TString version, TComma,
      TString ''filename'', TColon, TString filename, TComma,
      TString ''nolib'', TColon, TFalse, TComma,
      TString ''metadata'', TColon, TLBracket] @ metadata_tokens metadata @
     [TRBracket, TRBrace, TRBracket, TRBrace]"

section \<open>Version naming: properties\<close>

lemma SplitN_cut:
  assumes "sep \<notin> set a"
  shows "SplitN (a @ sep # rest) sep (Suc (Suc n)) = a # SplitN rest sep (Suc n)"
proof -
  from assms have keep: "\<And>x. x \<in> set a \<Longrightarrow> x \<noteq> sep" by auto
  have "takeWhile (\<lambda>c. c \<noteq> sep) (a @ sep # rest) = a"
    using keep by (simp add: takeWhile_append2)
  moreover have "dropWhile (\<lambda>c. c \<noteq> sep) (a @ sep # rest) = sep # rest"
    using keep by (simp add: dropWhile_append2)
  ultimately show ?thesis by simp
qed

lemma SplitN_whole: "sep \<notin> set s \<Longrightarrow> SplitN s sep (Suc n) = [s]"
  by (cases n) simp_all

lemma SplitN_nonempty: "SplitN s sep (Suc n) \<noteq> []"
  by (cases n) simp_all

lemma parse_uint_loop_digits: "parse_uint_loop n s = Inr m \<Longrightarrow> list_all is_digit s"
  by (induction s arbitrary: n) (auto split: if_splits)

lemma parse_uint_loop_not_digits:
  "\<not> list_all is_digit s \<Longrightarrow> \<exists>e. parse_uint_loop n s = Inl e"
  by (induction s arbitrary: n) (auto split: if_splits)

lemma Atoi_Inr_numeric: "Atoi s = Inr v \<Longrightarrow> numeric s"
  unfolding Atoi_def numeric_def sign_stripped_def Let_def
  by (auto split: if_splits sum.splits dest: parse_uint_loop_digits)

lemma Atoi_not_numeric: "\<not> numeric s \<Longrightarrow> \<exists>e. Atoi s = Inl (NumError ''Atoi'' s e)"
  unfolding Atoi_def numeric_def sign_stripped_def Let_def
  using parse_uint_loop_not_digits [of "tl s" 0] parse_uint_loop_not_digits [of s 0]
  by (auto split: if_splits sum.splits)

lemma numeric_no_dot: "numeric s \<Longrightarrow> CHR ''.'' \<notin> set s"
  unfolding numeric_def sign_stripped_def
  by (cases s) (auto simp: list_all_iff is_digit_def split: if_splits)

lemma patch_to_interface_two:
  assumes "Atoi a = Inr major" and "Atoi b = Inr minor"
  shows "patch_to_interface (a @ ''.'' @ b) = Inr (10000 * major + 100 * minor)"
proof -
  have "CHR ''.'' \<notin> set a" and "CHR ''.'' \<notin> set b"
    using assms by (auto dest!: Atoi_Inr_numeric numeric_no_dot)
  then have "SplitN (a @ ''.'' @ b) CHR ''.'' 3 = [a, b]"
    by (simp add: numeral_3_eq_3 SplitN_cut SplitN_whole del: SplitN.simps)
  then show ?thesis
    using assms by (simp add: patch_to_interface_def ensure_def)
qed

lemma patch_to_interface_three:
  assumes "Atoi a = Inr major" and "Atoi b = Inr minor"
  shows "patch_to_interface (a @ ''.'' @ b @ ''.'' @ c) = Inr (10000 * major + 100 * minor)"
proof -
  have "CHR ''.'' \<notin> set a" and "CHR ''.'' \<notin> set b"
    using assms by (auto dest!: Atoi_Inr_numeric numeric_no_dot)
  then have "SplitN (a @ ''.'' @ b @ ''.'' @ c) CHR ''.'' 3 = [a, b, c]"
    by (simp add: numeral_3_eq_3 SplitN_cut del: SplitN.simps(3))
  then show ?thesis
    using assms by (simp add: patch_to_interface_def ensure_def)
qed

lemma patch_to_interface_no_dot:
  "CHR ''.'' \<notin> set p \<Longrightarrow>
     patch_to_interface p = Inl (Panic (''failed to parse game version: '' @ p))"
  by (simp add: patch_to_interface_def ensure_def numeral_3_eq_3 SplitN_whole del: SplitN.simps)

lemma patch_to_interface_major:
  assumes "CHR ''.'' \<notin> set a" and "Atoi a = Inl e"
  shows "patch_to_interface (a @ ''.'' @ rest) =
           Inl (PanicOnErr ''parsing major portion of game version'' e)"
proof -
  have "\<exists>bs. SplitN (a @ ''.'' @ rest) CHR ''.'' 3 = a # bs \<and> bs \<noteq> []"
    using assms(1) by (simp add: numeral_3_eq_3 SplitN_cut SplitN_nonempty del: SplitN.simps)
  then show ?thesis
    using assms(2) by (auto simp: patch_to_interface_def ensure_def)
qed

lemma patch_to_interface_minor:
  assumes "Atoi a = Inr major" and "CHR ''.'' \<notin> set b" and "Atoi b = Inl e"
  shows "patch_to_interface (a @ ''.'' @ b) =
           Inl (PanicOnErr ''parsing minor portion of game version'' e)"
    and "patch_to_interface (a @ ''.'' @ b @ ''.'' @ c) =
           Inl (PanicOnErr ''parsing minor portion of game version'' e)"
proof -
  have a: "CHR ''.'' \<notin> set a"
    using assms(1) by (auto dest!: Atoi_Inr_numeric numeric_no_dot)
  have "SplitN (a @ ''.'' @ b) CHR ''.'' 3 = [a, b]"
    using a assms(2) by (simp add: numeral_3_eq_3 SplitN_cut SplitN_whole del: SplitN.simps)
  then show "patch_to_interface (a @ ''.'' @ b) =
           Inl (PanicOnErr ''parsing minor portion of game version'' e)"
    using assms by (simp add: patch_to_interface_def ensure_def)
  have "SplitN (a @ ''.'' @ b @ ''.'' @ c) CHR ''.'' 3 = [a, b, c]"
    using a assms(2) by (simp add: numeral_3_eq_3 SplitN_cut del: SplitN.simps(3))
  then show "patch_to_interface (a @ ''.'' @ b @ ''.'' @ c) =
           Inl (PanicOnErr ''parsing minor portion of game version'' e)"
    using assms by (simp add: patch_to_interface_def ensure_def)
qed

lemma interface_value_in_range:
  fixes major minor :: go_int
  assumes "- (2 ^ 63) \<le> 10000 * sint major" and "10000 * sint major < 2 ^ 63"
    and "- (2 ^ 63) \<le> 100 * sint minor" and "100 * sint minor < 2 ^ 63"
    and "- (2 ^ 63) \<le> 10000 * sint major + 100 * sint minor"
    and "10000 * sint major + 100 * sint minor < 2 ^ 63"
  shows "sint (10000 * major + 100 * minor) = 10000 * sint major + 100 * sint minor"
  using assms by (simp add: sint_word_add sint_word_mult signed_take_bit_int_eq_self)

text \<open>
  C3, as the code has it. A patch string whose first two dot-separated components parse
  as the integers \<open>major\<close> and \<open>minor\<close> (\<^verbatim>\<open>strconv.Atoi\<close> accepts them) yields
  \<open>10000 * major + 100 * minor\<close> in the arithmetic of Go's \<^verbatim>\<open>int\<close>, with or without
  a third component, whatever that component is. The result is the integer
  \<open>10000 * major + 100 * minor\<close> whenever the two products and their sum fit in 64 bits,
  as for every version number of the game; beyond that it wraps around, so that
  \<^verbatim>\<open>9223372036854775807.0\<close> yields \<open>-10000\<close>. A string without a dot (fewer than two
  components) fails with the panic \<^verbatim>\<open>failed to parse game version: <patch>\<close>; a major
  or minor component that does not parse fails with the panic of \<^verbatim>\<open>panicOnErr\<close> for
  that component, and a non-numeric component never parses.
\<close>

theorem patch_to_interface_spec:
  fixes major minor :: go_int
  shows
    "(Atoi a = Inr major \<longrightarrow> Atoi b = Inr minor \<longrightarrow>
        patch_to_interface (a @ ''.'' @ b) = Inr (10000 * major + 100 * minor) \<and>
        patch_to_interface (a @ ''.'' @ b @ ''.'' @ c) = Inr (10000 * major + 100 * minor) \<and>
        (- (2 ^ 63) \<le> 10000 * sint major \<and> 10000 * sint major < 2 ^ 63 \<and>
         - (2 ^ 63) \<le> 100 * sint minor \<and> 100 * sint minor < 2 ^ 63 \<and>
         - (2 ^ 63) \<le> 10000 * sint major + 100 * sint minor \<and>
         10000 * sint major + 100 * sint minor < 2 ^ 63 \<longrightarrow>
         sint (10000 * major + 100 * minor) = 10000 * sint major + 100 * sint minor)) \<and>
     (CHR ''.'' \<notin> set p \<longrightarrow>
        patch_to_interface p = Inl (Panic (''failed to parse game version: '' @ p))) \<and>
     (CHR ''.'' \<notin> set a \<longrightarrow> Atoi a = Inl e \<longrightarrow>
        patch_to_interface (a @ ''.'' @ rest) =
          Inl (PanicOnErr ''parsing major portion of game version'' e)) \<and>
     (Atoi a = Inr major \<longrightarrow> CHR ''.'' \<notin> set b \<longrightarrow> Atoi b = Inl e \<longrightarrow>
        patch_to_interface (a @ ''.'' @ b) =
          Inl (PanicOnErr ''parsing minor portion of game version'' e) \<and>
        patch_to_interface (a @ ''.'' @ b @ ''.'' @ c) =
          Inl (PanicOnErr ''parsing minor portion of game version'' e)) \<and>
     (\<not> numeric s \<longrightarrow> (\<exists>e'. Atoi s = Inl (NumError ''Atoi'' s e')))"
proof (intro conjI impI)
  assume "Atoi a = Inr major" "Atoi b = Inr minor"
  then show "patch_to_interface (a @ ''.'' @ b) = Inr (10000 * major + 100 * minor)"
    and "patch_to_interface (a @ ''.'' @ b @ ''.'' @ c) = Inr (10000 * major + 100 * minor)"
    by (rule patch_to_interface_two patch_to_interface_three)+
next
  assume "- (2 ^ 63) \<le> 10000 * sint major \<and> 10000 * sint major < 2 ^ 63 \<and>
         - (2 ^ 63) \<le> 100 * sint minor \<and> 100 * sint minor < 2 ^ 63 \<and>
         - (2 ^ 63) \<le> 10000 * sint major + 100 * sint minor \<and>
         10000 * sint major + 100 * sint minor < 2 ^ 63"
  then show "sint (10000 * major + 100 * minor) = 10000 * sint major + 100 * sint minor"
    by (intro interface_value_in_range) simp_all
next
  assume "CHR ''.'' \<notin> set p"
  then show "patch_to_interface p = Inl (Panic (''failed to parse game version: '' @ p))"
    by (rule patch_to_interface_no_dot)
next
  assume "CHR ''.'' \<notin> set a" "Atoi a = Inl e"
  then show "patch_to_interface (a @ ''.'' @ rest) =
          Inl (PanicOnErr ''parsing major portion of game version'' e)"
    by (rule patch_to_interface_major)
next
  assume "Atoi a = Inr major" "CHR ''.'' \<notin> set b" "Atoi b = Inl e"
  then show "patch_to_interface (a @ ''.'' @ b) =
          Inl (PanicOnErr ''parsing minor portion of game version'' e)"
    and "patch_to_interface (a @ ''.'' @ b @ ''.'' @ c) =
          Inl (PanicOnErr ''parsing minor portion of game version'' e)"
    by (rule patch_to_interface_minor)+
next
  assume "\<not> numeric s"
  then show "\<exists>e'. Atoi s = Inl (NumError ''Atoi'' s e')"
    by (rule Atoi_not_numeric)
qed

theorem patch_to_interface_spec_witness:
  "patch_to_interface ''10.1.5'' = Inr 100100 \<and>
   patch_to_interface ''10.1'' = Inr 100100 \<and>
   sint (100100 :: go_int) = 10000 * 10 + 100 * 1 \<and>
   patch_to_interface ''1'' = Inl (Panic ''failed to parse game version: 1'') \<and>
   patch_to_interface ''x.1'' =
     Inl (PanicOnErr ''parsing major portion of game version'' (NumError ''Atoi'' ''x'' ErrSyntax)) \<and>
   patch_to_interface ''10.y'' =
     Inl (PanicOnErr ''parsing minor portion of game version'' (NumError ''Atoi'' ''y'' ErrSyntax)) \<and>
   patch_to_interface ''10.y.5'' =
     Inl (PanicOnErr ''parsing minor portion of game version'' (NumError ''Atoi'' ''y'' ErrSyntax)) \<and>
   \<not> numeric ''x'' \<and> Atoi ''x'' = Inl (NumError ''Atoi'' ''x'' ErrSyntax)"
proof -
  have a: "Atoi ''10'' = Inr 10" and b: "Atoi ''1'' = Inr 1"
    and x: "Atoi ''x'' = Inl (NumError ''Atoi'' ''x'' ErrSyntax)"
    and y: "Atoi ''y'' = Inl (NumError ''Atoi'' ''y'' ErrSyntax)"
    by (simp_all add: Atoi_def is_digit_def digit_val_def)
  have n: "\<not> numeric ''x''"
    by (simp add: numeric_def sign_stripped_def is_digit_def)
  show ?thesis
    using patch_to_interface_spec [of "''10''" 10 "''1''" 1 "''5''" "''1''"
        "NumError ''Atoi'' ''y'' ErrSyntax" "[]" "''x''"]
      patch_to_interface_spec [of "''x''" 10 "''y''" 1 "''5''" "''1''"
        "NumError ''Atoi'' ''x'' ErrSyntax" "''1''" "''x''"]
      patch_to_interface_spec [of "''10''" 10 "''y''" 1 "''5''" "''1''"
        "NumError ''Atoi'' ''y'' ErrSyntax" "[]" "''x''"]
      a b x y n
    by simp
qed

lemma Atoi_max_int: "Atoi ''9223372036854775807'' = Inr 9223372036854775807"
  by (simp add: Atoi_def is_digit_def digit_val_def)

lemma Atoi_zero: "Atoi ''0'' = Inr 0"
  by (simp add: Atoi_def is_digit_def digit_val_def)

theorem patch_to_interface_spec_counterexample:
  "Atoi ''9223372036854775807'' = Inr 9223372036854775807 \<and>
   sint (9223372036854775807 :: go_int) = 9223372036854775807 \<and>
   Atoi ''0'' = Inr 0 \<and>
   patch_to_interface ''9223372036854775807.0'' = Inr (- 10000) \<and>
   sint (- 10000 :: go_int) = - 10000"
proof -
  have "(10000 * 9223372036854775807 + 100 * 0 :: go_int) = - 10000"
    by simp
  with patch_to_interface_two [OF Atoi_max_int Atoi_zero]
  show ?thesis
    by (simp add: Atoi_max_int Atoi_zero)
qed

lemma patch_to_flavour_long:
  assumes "2 \<le> length patch"
  shows "patch_to_flavour patch =
     Inr (if take 2 patch = ''1.'' then ''classic''
          else if take 2 patch = ''2.'' then ''classic-tbc''
          else if take 2 patch = ''3.'' then ''classic-wotlk''
          else ''mainline'')"
  using assms by (simp add: patch_to_flavour_def flavour_table_def)

lemma prefix_two: "2 \<le> length patch \<Longrightarrow> prefix [x, y] patch \<longleftrightarrow> take 2 patch = [x, y]"
  by (cases patch; cases "tl patch") auto

text \<open>
  C4. On a patch string of at least two bytes \<^verbatim>\<open>patch_to_flavour\<close> returns
  \<^verbatim>\<open>classic\<close> when the string starts with \<^verbatim>\<open>1.\<close>, \<^verbatim>\<open>classic-tbc\<close> when it
  starts with \<^verbatim>\<open>2.\<close>, \<^verbatim>\<open>classic-wotlk\<close> when it starts with \<^verbatim>\<open>3.\<close>, and
  \<^verbatim>\<open>mainline\<close> for every other two-byte prefix.
\<close>

theorem patch_to_flavour_table:
  assumes "2 \<le> length patch"
  shows "patch_to_flavour patch =
     Inr (if prefix ''1.'' patch then ''classic''
          else if prefix ''2.'' patch then ''classic-tbc''
          else if prefix ''3.'' patch then ''classic-wotlk''
          else ''mainline'')"
  using assms by (simp add: patch_to_flavour_long prefix_two)

theorem patch_to_flavour_table_witness:
  "patch_to_flavour ''1.14.3'' = Inr ''classic'' \<and>
   patch_to_flavour ''2.5.1'' = Inr ''classic-tbc'' \<and>
   patch_to_flavour ''3.0.0'' = Inr ''classic-wotlk'' \<and>
   patch_to_flavour ''10.1.0'' = Inr ''mainline''"
  using patch_to_flavour_table [of "''1.14.3''"] patch_to_flavour_table [of "''2.5.1''"]
    patch_to_flavour_table [of "''3.0.0''"] patch_to_flavour_table [of "''10.1.0''"]
  by simp

text \<open>
  C5. On a patch string of fewer than two bytes \<^verbatim>\<open>patch_to_flavour\<close> returns no
  flavour: the slice expression \<^verbatim>\<open>patch[:2]\<close> is out of range and the call ends in
  the run-time panic for it. The function has no length check and raises no failure of
  its own, unlike \<^verbatim>\<open>patch_to_interface\<close>, whose \<^verbatim>\<open>ensure\<close> reports the
  malformed version.
\<close>

theorem patch_to_flavour_short:
  assumes "length patch < 2"
  shows "patch_to_flavour patch = Inl (SliceBoundsOutOfRange 2 (length patch))"
  using assms by (simp add: patch_to_flavour_def)

theorem patch_to_flavour_short_witness:
  "patch_to_flavour ''1'' = Inl (SliceBoundsOutOfRange 2 1) \<and>
   patch_to_flavour [] = Inl (SliceBoundsOutOfRange 2 0) \<and>
   patch_to_interface ''1'' = Inl (Panic ''failed to parse game version: 1'')"
  using patch_to_flavour_short [of "''1''"] patch_to_flavour_short [of "[]"]
    patch_to_interface_no_dot [of "''1''"]
  by simp

section \<open>The program: properties\<close>

lemmas io_defs = io_return_def io_panic_def io_bind_def io_lift_def io_call_def stderr_def

lemma run_cmd_result:
  "run_cmd w c p t =
     (Inr (case cmd_Run w (t @ [executing w c p]) c p of
             RunNil out err \<Rightarrow> (0, strings_TrimSpace w out, strings_TrimSpace w err)
           | RunExitError code out err \<Rightarrow> (code, strings_TrimSpace w out, strings_TrimSpace w err)
           | RunOtherError e out err \<Rightarrow> (0, strings_TrimSpace w out, strings_TrimSpace w err)),
      t @ [executing w c p, Exec c p])"
  by (simp add: run_cmd_def io_defs executing_def)

text \<open>
  C9. When \<^verbatim>\<open>cmd.Run()\<close> fails with an error that is not an \<^verbatim>\<open>*exec.ExitError\<close>
  (the command could not be started at all, say), \<^verbatim>\<open>run_cmd\<close> returns the return code
  0 with whatever output was captured, and \<^verbatim>\<open>run_all_cmd\<close> goes on with the next
  command as after a success: running the list from that command on is running the rest
  of the list, with the log line and the command added to the events.
\<close>

theorem run_cmd_hides_start_failure:
  assumes "cmd_Run w (t @ [executing w cmd cwd]) cmd cwd = RunOtherError e out err"
  shows "run_cmd w cmd cwd t =
           (Inr (0, strings_TrimSpace w out, strings_TrimSpace w err),
            t @ [executing w cmd cwd, Exec cmd cwd]) \<and>
         run_all_cmd w (cmd # command_list) cwd t =
           run_all_cmd w command_list cwd (t @ [executing w cmd cwd, Exec cmd cwd])"
  using assms by (simp add: run_cmd_result io_defs ensure_def)

lemma run_all_cmd_events:
  "run_all_cmd w cmds cwd t = (Inr (), t') \<Longrightarrow>
     t' = t @ concat (map (\<lambda>c. [executing w c cwd, Exec c cwd]) cmds)"
proof (induction cmds arbitrary: t)
  case Nil
  then show ?case by (simp add: io_defs)
next
  case (Cons c cmds)
  from Cons.prems have "run_all_cmd w cmds cwd (t @ [executing w c cwd, Exec c cwd]) = (Inr (), t')"
    by (auto simp: run_cmd_result io_defs ensure_def split: prod.splits sum.splits if_splits run_result.splits)
  from Cons.IH [OF this] show ?case by simp
qed

lemma fetch_addon_version_events:
  "snd (fetch_addon_version w dir t) =
     t @ [executing w ''git describe --tags --abbrev=0'' dir, Exec ''git describe --tags --abbrev=0'' dir]"
  by (simp add: fetch_addon_version_def run_cmd_result io_defs ensure_def split: prod.splits run_result.splits)

text \<open>
  C1. When the tag query on the freshly recloned repository of an addon returns the
  addon's version, the turn of the loop for that addon ends there: after the two commands
  of \<^verbatim>\<open>fetch_repo\<close>, the path lookup and the tag query, the only further event is the
  log line saying that the addon is skipped (no download, no file written, no commit, tag
  or push, no hosted release, whatever the addon source is), and the loop goes on with
  the next addon.
\<close>

theorem mirror_skips_up_to_date:
  assumes "fetch_repo w addon script_path t0 = (Inr (), t1)"
    and "filepath_Abs w t1 (Slug addon) = (addon_output_dir, None)"
    and "fetch_addon_version w addon_output_dir (t1 @ [Abs (Slug addon)]) = (Inr (Version addon), t2)"
  shows "mirror_addon w app script_path token addon t0 =
           (Inr (), t2 @ [Stderr (Version addon @ '' == '' @ Version addon @ '', skipping'')]) \<and>
         t2 = t0 @
           [executing w (''rm -rf '' @ Slug addon) script_path,
            Exec (''rm -rf '' @ Slug addon) script_path,
            executing w (''git clone ssh://git@github.com/ogri-la/'' @ Slug addon) script_path,
            Exec (''git clone ssh://git@github.com/ogri-la/'' @ Slug addon) script_path,
            Abs (Slug addon),
            executing w ''git describe --tags --abbrev=0'' addon_output_dir,
            Exec ''git describe --tags --abbrev=0'' addon_output_dir] \<and>
         mirror_loop w app script_path token (addon # addon_list) t0 =
           mirror_loop w app script_path token addon_list
             (t2 @ [Stderr (Version addon @ '' == '' @ Version addon @ '', skipping'')])"
proof -
  have t1: "t1 = t0 @
           [executing w (''rm -rf '' @ Slug addon) script_path,
            Exec (''rm -rf '' @ Slug addon) script_path,
            executing w (''git clone ssh://git@github.com/ogri-la/'' @ Slug addon) script_path,
            Exec (''git clone ssh://git@github.com/ogri-la/'' @ Slug addon) script_path]"
    using run_all_cmd_events [OF assms(1) [unfolded fetch_repo_def]] by simp
  have t2: "t2 = t1 @ [Abs (Slug addon), 
            executing w ''git describe --tags --abbrev=0'' addon_output_dir,
            Exec ''git describe --tags --abbrev=0'' addon_output_dir]"
    using fetch_addon_version_events [of w addon_output_dir "t1 @ [Abs (Slug addon)]"] assms(3) by simp
  have body: "mirror_addon w app script_path token addon t0 =
           (Inr (), t2 @ [Stderr (Version addon @ '' == '' @ Version addon @ '', skipping'')])"
    using assms by (simp add: mirror_addon_def io_defs panicOnErr_def Let_def)
  show ?thesis using t1 t2 body by (simp add: io_defs)
qed


lemma emitsI_all: "snd (m t) = t @ evs \<Longrightarrow> emits m t evs"
  unfolding emits_def by (rule exI [of _ "length evs"]) simp

lemma emitsI_panic: "snd (m t) = t @ take n evs \<Longrightarrow> fst (m t) = Inl p \<Longrightarrow> emits m t evs"
  unfolding emits_def by (rule exI [of _ n]) simp

lemma emits_bind:
  assumes "emits m t A"
    and "\<And>x. fst (m t) = Inr x \<Longrightarrow> emits (f x) (t @ A) B"
  shows "emits (io_bind m f) t (A @ B)"
proof (cases "fst (m t)")
  case (Inl p)
  from assms(1) obtain n where n: "snd (m t) = t @ take n A"
    unfolding emits_def by blast
  have "io_bind m f t = (Inl p, t @ take n A)"
    using Inl n by (cases "m t") (simp add: io_bind_def)
  moreover have "take n A = take (min n (length A)) (A @ B)" by (simp add: min_def)
  ultimately show ?thesis
    unfolding emits_def by (intro exI [of _ "min n (length A)"]) simp
next
  case (Inr x)
  then have full: "snd (m t) = t @ A"
    using assms(1) unfolding emits_def by blast
  from assms(2) [OF Inr] obtain n where
    n: "snd (f x (t @ A)) = (t @ A) @ take n B"
    and ok: "\<And>y. fst (f x (t @ A)) = Inr y \<Longrightarrow> snd (f x (t @ A)) = (t @ A) @ B"
    unfolding emits_def by blast
  have run: "io_bind m f t = f x (t @ A)"
    using Inr full by (cases "m t") (simp add: io_bind_def)
  have "(t @ A) @ take n B = t @ take (length A + n) (A @ B)" by simp
  with n ok run show ?thesis
    unfolding emits_def by (intro exI [of _ "length A + n"]) auto
qed

lemma emits_seq:
  assumes "emits m t A"
    and "\<And>x. fst (m t) = Inr x \<Longrightarrow> emits (f x) (t @ A) B"
    and "C = A @ B"
  shows "emits (io_bind m f) t C"
  using emits_bind [OF assms(1,2)] assms(3) by simp

lemma emits_nothing_return [simp]: "emits (io_return x) t []"
  by (simp add: emits_def io_return_def)

lemma emits_nothing_lift [simp]: "emits (io_lift r) t []"
  by (simp add: emits_def io_lift_def)

lemma emits_call [simp]: "emits (io_call e f) t [e]"
  by (rule emitsI_all) (simp add: io_call_def)

lemma emits_stderr [simp]: "emits (stderr msg) t [Stderr msg]"
  by (simp add: stderr_def)

lemma emits_run_cmd: "emits (run_cmd w c p) t [executing w c p, Exec c p]"
  by (rule emitsI_all) (simp add: run_cmd_result)

lemma emits_run_all_cmd: "emits (run_all_cmd w cmds cwd) t (cmd_events w cmds cwd)"
proof (induction cmds arbitrary: t)
  case Nil
  show ?case by (simp add: cmd_events_def)
next
  case (Cons c cmds)
  have "emits (run_all_cmd w (c # cmds) cwd) t
          ([executing w c cwd, Exec c cwd] @ cmd_events w cmds cwd)"
    unfolding run_all_cmd.simps
  proof (rule emits_seq [OF emits_run_cmd])
    fix x assume "fst (run_cmd w c cwd t) = Inr x"
    show "emits (case x of (rc, uu, stderr') \<Rightarrow>
            io_bind (io_lift (ensure (rc = 0)
                     (''command '' @ [CHR 0x27] @ c @ [CHR 0x27] @ '' failed: '' @ stderr')))
            (\<lambda>_. run_all_cmd w cmds cwd)) (t @ [executing w c cwd, Exec c cwd]) (cmd_events w cmds cwd)"
      by (cases x) (auto intro!: emits_seq [OF emits_nothing_lift] Cons.IH)
  qed simp
  then show ?case by (simp add: cmd_events_def)
qed

lemma emits_lift_bind:
  assumes "\<And>x. r = Inr x \<Longrightarrow> emits (f x) t B"
  shows "emits (io_bind (io_lift r) f) t B"
  by (rule emits_seq [OF emits_nothing_lift]) (auto simp: io_lift_def intro: assms)

lemma emits_call_bind:
  assumes "emits (f (answer t)) (t @ [e]) B"
  shows "emits (io_bind (io_call e answer) f) t (e # B)"
  by (rule emits_seq [OF emits_call]) (auto simp: io_call_def intro: assms)

lemma emits_stderr_bind:
  assumes "emits (f ()) (t @ [Stderr msg]) B"
  shows "emits (io_bind (stderr msg) f) t (Stderr msg # B)"
  unfolding stderr_def by (rule emits_call_bind) (rule assms)

lemma emits_write_release_json:
  "emits (write_release_json w doc dir) t
     [WriteFile (filepath_Join w dir ''release.json'') doc,
      Stderr (''wrote: '' @ filepath_Join w dir ''release.json'')]"
  unfolding write_release_json_def Let_def
  by (intro emits_call_bind emits_lift_bind emits_stderr_bind emits_nothing_return)

lemma write_release_json_result:
  "fst (write_release_json w doc dir t) = Inr p \<Longrightarrow> p = filepath_Join w dir ''release.json''"
  by (auto simp: write_release_json_def io_defs Let_def panicOnErr_def split: option.splits)

lemma emits_tag_addon: "emits (tag_addon w v dir) t (cmd_events w (tag_commands v) dir)"
  unfolding tag_addon_def tag_commands_def by (rule emits_run_all_cmd)

lemma guess_media_type_known:
  "known_media_type w path \<Longrightarrow> guess_media_type w path = Inr (media_type_of w path)"
  by (auto simp: known_media_type_def media_type_of_def guess_media_type_def Let_def)

lemma guess_media_type_unknown:
  "\<not> known_media_type w path \<Longrightarrow>
     guess_media_type w path = Inl (Panic (''failed to guess mime for given path: '' @ path))"
  by (auto simp: known_media_type_def guess_media_type_def Let_def)

lemma emits_upload_assets:
  "emits (upload_assets w addon token rid xs) t (concat (map (asset_events w addon token rid) xs))"
proof (induction xs arbitrary: t)
  case Nil
  show ?case by simp
next
  case (Cons a xs)
  show ?case
  proof (cases "known_media_type w a")
    case False
    then have "upload_assets w addon token rid (a # xs) t =
        (Inl (Panic (''failed to guess mime for given path: '' @ a)), t)"
      by (simp add: guess_media_type_unknown io_defs)
    then show ?thesis
      by (intro emitsI_panic [where n = 0]) simp_all
  next
    case True
    have eq: "concat (map (asset_events w addon token rid) (a # xs)) =
          Open a # UploadReleaseAsset token ''ogri-la'' (Slug addon) rid
              \<lparr>UploadName = Base a, Label = Base a, MediaType = media_type_of w a\<rparr> a #
             concat (map (asset_events w addon token rid) xs)"
      by (simp add: asset_events_def)
    have "emits (upload_assets w addon token rid (a # xs)) t
            (Open a # UploadReleaseAsset token ''ogri-la'' (Slug addon) rid
              \<lparr>UploadName = Base a, Label = Base a, MediaType = media_type_of w a\<rparr> a #
             concat (map (asset_events w addon token rid) xs))"
      unfolding upload_assets.simps guess_media_type_known [OF True] Let_def
      by (rule emits_lift_bind) (auto intro!: emits_call_bind emits_lift_bind Cons.IH)
    then show ?thesis unfolding eq .
  qed
qed

lemma emits_create_tag_release:
  "emits (create_tag_release w addon token xs) t
     (release_events w addon token
        (fst (Repositories_CreateRelease w t token ''ogri-la'' (Slug addon) (Version addon))) xs)"
  unfolding create_tag_release_def release_events_def
  by (rule emits_call_bind)
    (auto split: prod.splits intro!: emits_lift_bind emits_upload_assets)

lemma upload_assets_append:
  "upload_assets w addon token rid (xs @ ys) t =
     (case upload_assets w addon token rid xs t of
        (Inl p, t') \<Rightarrow> (Inl p, t')
      | (Inr u, t') \<Rightarrow> upload_assets w addon token rid ys t')"
proof (induction xs arbitrary: t)
  case Nil
  show ?case by (simp add: io_defs)
next
  case (Cons a xs)
  show ?case
    by (simp add: io_defs Cons.IH Let_def split: prod.splits sum.splits)
qed

lemma create_tag_release_append:
  "create_tag_release w addon token (xs @ ys) t =
     (case create_tag_release w addon token xs t of
        (Inl p, t') \<Rightarrow> (Inl p, t')
      | (Inr u, t') \<Rightarrow>
          upload_assets w addon token
            (fst (Repositories_CreateRelease w t token ''ogri-la'' (Slug addon) (Version addon)))
            ys t')"
  by (simp add: create_tag_release_def io_defs upload_assets_append split: prod.splits sum.splits)

text \<open>
  C8, as the code has it. \<^verbatim>\<open>create_tag_release\<close> guesses the media type of an asset
  when its turn comes, after the release has been created and the assets before it have
  been uploaded. So with an asset \<open>bad\<close> whose lower-cased extension is neither
  \<^verbatim>\<open>.zip\<close> nor \<^verbatim>\<open>.json\<close>, publishing \<open>good @ bad # rest\<close> never returns normally:
  it does what publishing \<open>good\<close> alone does and, where that would return, panics
  with \<^verbatim>\<open>failed to guess mime for given path: <bad>\<close>. Its events are the creation of
  the release followed by a prefix of the opens and uploads of \<open>good\<close>, in order (all
  of them when none fails); nothing of \<open>bad\<close> or \<open>rest\<close> is opened or uploaded. No
  asset is uploaded when \<open>bad\<close> is the first asset: then the release creation is the
  only event.
\<close>

theorem publish_unknown_asset:
  assumes "\<not> known_media_type w bad"
  shows
    "create_tag_release w addon token (good @ bad # rest) t =
       (case create_tag_release w addon token good t of
          (Inl p, t') \<Rightarrow> (Inl p, t')
        | (Inr u, t') \<Rightarrow>
            (Inl (Panic (''failed to guess mime for given path: '' @ bad)), t')) \<and>
     (\<exists>n. snd (create_tag_release w addon token good t) =
            t @ take n (release_events w addon token
                 (fst (Repositories_CreateRelease w t token ''ogri-la'' (Slug addon) (Version addon)))
                 good)) \<and>
     (\<forall>u. fst (create_tag_release w addon token good t) = Inr u \<longrightarrow>
        snd (create_tag_release w addon token good t) =
            t @ release_events w addon token
                 (fst (Repositories_CreateRelease w t token ''ogri-la'' (Slug addon) (Version addon)))
                 good) \<and>
     snd (create_tag_release w addon token (bad # rest) t) =
       t @ [CreateRelease token ''ogri-la'' (Slug addon) (Version addon)]"
proof -
  have bad: "\<And>rid t'. upload_assets w addon token rid (bad # rest) t' =
        (Inl (Panic (''failed to guess mime for given path: '' @ bad)), t')"
    using assms by (simp add: guess_media_type_unknown io_defs)
  have 1: "create_tag_release w addon token (good @ bad # rest) t =
       (case create_tag_release w addon token good t of
          (Inl p, t') \<Rightarrow> (Inl p, t')
        | (Inr u, t') \<Rightarrow>
            (Inl (Panic (''failed to guess mime for given path: '' @ bad)), t'))"
    by (simp add: create_tag_release_append bad split: prod.splits sum.splits
        del: upload_assets.simps)
  have 4: "snd (create_tag_release w addon token (bad # rest) t) =
       t @ [CreateRelease token ''ogri-la'' (Slug addon) (Version addon)]"
    by (simp add: create_tag_release_def io_defs bad panicOnErr_def
        split: prod.splits option.splits del: upload_assets.simps)
  from emits_create_tag_release [of w addon token good t] 1 4 show ?thesis
    unfolding emits_def by blast
qed

lemma io_bind_Inr: "m t = (Inr x, t') \<Longrightarrow> io_bind m f t = f x t'"
  by (simp add: io_bind_def)

lemma io_bind_Inl: "m t = (Inl p, t') \<Longrightarrow> io_bind m f t = (Inl p, t')"
  by (simp add: io_bind_def)

lemma io_bind_call: "io_bind (io_call e answer) f t = f (answer t) (t @ [e])"
  by (simp add: io_bind_def io_call_def)

lemma io_bind_stderr: "io_bind (stderr msg) f t = f () (t @ [Stderr msg])"
  by (simp add: io_bind_def io_call_def stderr_def)

lemma io_bind_lift_Inr: "io_bind (io_lift (Inr x)) f t = f x t"
  by (simp add: io_bind_def io_lift_def)

lemma io_bind_lift_Inl: "io_bind (io_lift (Inl p)) f t = (Inl p, t)"
  by (simp add: io_bind_def io_lift_def)

lemma mirror_addon_out_of_date:
  assumes "fetch_repo w addon script_path t0 = (Inr (), t1)"
    and "filepath_Abs w t1 (Slug addon) = (dir, None)"
    and "fetch_addon_version w dir (t1 @ [Abs (Slug addon)]) = (Inr current_version, t2)"
    and "current_version \<noteq> Version addon"
  shows "mirror_addon w app script_path token addon t0 =
     io_bind (download_addon app addon dir)
       (\<lambda>zpath. io_bind (io_lift (gen_release_json addon dir (Base zpath)))
         (\<lambda>doc. io_bind (write_release_json w doc dir)
           (\<lambda>p. io_bind (tag_addon w (Version addon) dir)
             (\<lambda>_. create_tag_release w addon token [zpath, p]))))
       (t2 @ [update_detected addon current_version])"
  using assms(2,4)
  by (simp add: mirror_addon_def io_bind_Inr [where m = "fetch_repo w addon script_path" and t = t0, OF assms(1)] io_bind_Inr [where m = "fetch_addon_version w dir" and t = "t1 @ [Abs (Slug addon)]", OF assms(3)]
      io_bind_call io_bind_stderr io_bind_lift_Inr panicOnErr_def Let_def update_detected_def)

lemma command_outcome_0:
  "command_outcome w (c # cmds) cwd t 0 = cmd_Run w (t @ [executing w c cwd]) c cwd"
  by (simp add: command_outcome_def cmd_events_def)

lemma command_outcome_Suc:
  "command_outcome w (c # cmds) cwd t (Suc k) =
     command_outcome w cmds cwd (t @ [executing w c cwd, Exec c cwd]) k"
  by (simp add: command_outcome_def cmd_events_def)

lemma run_all_cmd_step:
  "run_all_cmd w (c # cmds) cwd t =
     (if exited_nonzero (cmd_Run w (t @ [executing w c cwd]) c cwd)
      then (case cmd_Run w (t @ [executing w c cwd]) c cwd of
              RunExitError code out err \<Rightarrow>
                (Inl (command_failed w c err), t @ [executing w c cwd, Exec c cwd])
            | _ \<Rightarrow> (Inr (), t))
      else run_all_cmd w cmds cwd (t @ [executing w c cwd, Exec c cwd]))"
  by (simp add: run_cmd_result io_defs ensure_def exited_nonzero_def command_failed_def
      split: run_result.splits)

lemma run_all_cmd_ok:
  "(\<And>k. k < length cmds \<Longrightarrow> \<not> exited_nonzero (command_outcome w cmds cwd t k)) \<Longrightarrow>
     run_all_cmd w cmds cwd t = (Inr (), t @ cmd_events w cmds cwd)"
proof (induction cmds arbitrary: t)
  case Nil
  show ?case by (simp add: io_defs cmd_events_def)
next
  case (Cons c cmds)
  from Cons.prems [of 0] have h: "\<not> exited_nonzero (cmd_Run w (t @ [executing w c cwd]) c cwd)"
    by (simp add: command_outcome_0)
  have "run_all_cmd w cmds cwd (t @ [executing w c cwd, Exec c cwd]) =
      (Inr (), (t @ [executing w c cwd, Exec c cwd]) @ cmd_events w cmds cwd)"
  proof (rule Cons.IH)
    fix k assume "k < length cmds"
    then show "\<not> exited_nonzero
        (command_outcome w cmds cwd (t @ [executing w c cwd, Exec c cwd]) k)"
      using Cons.prems [of "Suc k"] by (simp add: command_outcome_Suc)
  qed
  then show ?case
    by (simp add: run_all_cmd_step h cmd_events_def del: run_all_cmd.simps)
qed

lemma run_all_cmd_fail:
  "k < length cmds \<Longrightarrow>
   (\<And>j. j < k \<Longrightarrow> \<not> exited_nonzero (command_outcome w cmds cwd t j)) \<Longrightarrow>
   command_outcome w cmds cwd t k = RunExitError code out err \<Longrightarrow> code \<noteq> 0 \<Longrightarrow>
     run_all_cmd w cmds cwd t =
       (Inl (command_failed w (cmds ! k) err), t @ cmd_events w (take (Suc k) cmds) cwd)"
proof (induction cmds arbitrary: t k)
  case Nil
  then show ?case by simp
next
  case (Cons c cmds)
  show ?case
  proof (cases k)
    case 0
    with Cons.prems(3,4) show ?thesis
      by (simp add: run_all_cmd_step command_outcome_0 exited_nonzero_def cmd_events_def
          del: run_all_cmd.simps)
  next
    case (Suc k')
    from Cons.prems(2) [of 0] Suc
    have h: "\<not> exited_nonzero (cmd_Run w (t @ [executing w c cwd]) c cwd)"
      by (simp add: command_outcome_0)
    have "run_all_cmd w cmds cwd (t @ [executing w c cwd, Exec c cwd]) =
       (Inl (command_failed w (cmds ! k') err),
        (t @ [executing w c cwd, Exec c cwd]) @ cmd_events w (take (Suc k') cmds) cwd)"
    proof (rule Cons.IH)
      show "k' < length cmds" using Cons.prems(1) Suc by simp
      show "command_outcome w cmds cwd (t @ [executing w c cwd, Exec c cwd]) k' =
          RunExitError code out err"
        using Cons.prems(3) Suc by (simp add: command_outcome_Suc)
      show "code \<noteq> 0" by fact
      fix j assume "j < k'"
      then show "\<not> exited_nonzero
          (command_outcome w cmds cwd (t @ [executing w c cwd, Exec c cwd]) j)"
        using Cons.prems(2) [of "Suc j"] Suc by (simp add: command_outcome_Suc)
    qed
    then show ?thesis
      using Suc by (simp add: run_all_cmd_step h cmd_events_def del: run_all_cmd.simps)
  qed
qed

lemma run_all_cmd_some_fail:
  "k < length cmds \<Longrightarrow> exited_nonzero (command_outcome w cmds cwd t k) \<Longrightarrow>
     \<exists>p. fst (run_all_cmd w cmds cwd t) = Inl p"
proof (induction cmds arbitrary: t k)
  case Nil
  then show ?case by simp
next
  case (Cons c cmds)
  show ?case
  proof (cases "exited_nonzero (cmd_Run w (t @ [executing w c cwd]) c cwd)")
    case True
    then show ?thesis
      by (auto simp: run_all_cmd_step exited_nonzero_def simp del: run_all_cmd.simps
          split: run_result.splits)
  next
    case False
    with Cons.prems(2) obtain k' where k: "k = Suc k'"
      by (cases k) (simp_all add: command_outcome_0)
    with Cons.prems have "\<exists>p. fst (run_all_cmd w cmds cwd (t @ [executing w c cwd, Exec c cwd])) = Inl p"
      by (intro Cons.IH [of k']) (simp_all add: command_outcome_Suc)
    then show ?thesis
      by (simp add: run_all_cmd_step False del: run_all_cmd.simps)
  qed
qed

lemma create_tag_release_first:
  "\<exists>evs. snd (create_tag_release w addon token xs t) =
     t @ CreateRelease token ''ogri-la'' (Slug addon) (Version addon) # evs"
proof -
  obtain rid err where r: "Repositories_CreateRelease w t token ''ogri-la'' (Slug addon)
      (Version addon) = (rid, err)"
    by (cases "Repositories_CreateRelease w t token ''ogri-la'' (Slug addon) (Version addon)")
  show ?thesis
  proof (cases err)
    case None
    from emits_upload_assets [of w addon token rid xs
        "t @ [CreateRelease token ''ogri-la'' (Slug addon) (Version addon)]"]
    obtain n where "snd (upload_assets w addon token rid xs
        (t @ [CreateRelease token ''ogri-la'' (Slug addon) (Version addon)])) =
        (t @ [CreateRelease token ''ogri-la'' (Slug addon) (Version addon)]) @
        take n (concat (map (asset_events w addon token rid) xs))"
      unfolding emits_def by blast
    then show ?thesis
      by (simp add: create_tag_release_def io_defs r None panicOnErr_def)
  next
    case (Some e)
    then show ?thesis
      by (simp add: create_tag_release_def io_defs r panicOnErr_def)
  qed
qed

lemma CreateRelease_not_in_cmd_events:
  "CreateRelease a b c d \<notin> set (cmd_events w cmds cwd)"
  by (induction cmds) (simp_all add: cmd_events_def executing_def)

lemma write_release_json_cases:
  "write_release_json w doc dir t =
     (case os_WriteFile w t (filepath_Join w dir ''release.json'') doc of
        None \<Rightarrow> (Inr (filepath_Join w dir ''release.json''),
                 t @ [WriteFile (filepath_Join w dir ''release.json'') doc,
                      Stderr (''wrote: '' @ filepath_Join w dir ''release.json'')])
      | Some e \<Rightarrow> (Inl (PanicOnErr ''writing release.json to file'' e),
                   t @ [WriteFile (filepath_Join w dir ''release.json'') doc]))"
  by (simp add: write_release_json_def io_defs Let_def panicOnErr_def split: option.splits)

lemma tag_addon_run_all_cmd: "tag_addon w v dir = run_all_cmd w (tag_commands v) dir"
  by (simp add: tag_addon_def tag_commands_def)

lemma length_tag_commands: "length (tag_commands v) = 4"
  by (simp add: tag_commands_def)

lemma release_gate:
  fixes w addon token dir zpath doc t
  defines "p \<equiv> filepath_Join w dir ''release.json''"
  defines "wrote \<equiv> t @ [WriteFile p doc, Stderr (''wrote: '' @ p)]"
  defines "turn \<equiv> io_bind (write_release_json w doc dir)
           (\<lambda>p. io_bind (tag_addon w (Version addon) dir)
             (\<lambda>_. create_tag_release w addon token [zpath, p])) t"
  shows "(CreateRelease token ''ogri-la'' (Slug addon) (Version addon)
            \<in> set (drop (length t) (snd turn))) =
         (os_WriteFile w t p doc = None \<and>
          (\<forall>k<4. \<not> exited_nonzero (command_outcome w (tag_commands (Version addon)) dir wrote k)))"
proof (cases "os_WriteFile w t p doc")
  case (Some e)
  then have "turn = (Inl (PanicOnErr ''writing release.json to file'' e), t @ [WriteFile p doc])"
    unfolding turn_def p_def by (simp add: io_bind_def write_release_json_cases)
  with Some show ?thesis by simp
next
  case None
  then have w: "write_release_json w doc dir t = (Inr p, wrote)"
    unfolding p_def wrote_def by (simp add: write_release_json_cases)
  have turn: "turn = io_bind (run_all_cmd w (tag_commands (Version addon)) dir)
             (\<lambda>_. create_tag_release w addon token [zpath, p]) wrote"
    unfolding turn_def by (simp add: io_bind_Inr [where m = "write_release_json w doc dir" and t = t, OF w] tag_addon_run_all_cmd)
  show ?thesis
  proof (cases "\<forall>k<4. \<not> exited_nonzero (command_outcome w (tag_commands (Version addon)) dir wrote k)")
    case True
    then have "run_all_cmd w (tag_commands (Version addon)) dir wrote =
        (Inr (), wrote @ cmd_events w (tag_commands (Version addon)) dir)"
      by (intro run_all_cmd_ok) (simp add: length_tag_commands)
    then have "turn = create_tag_release w addon token [zpath, p]
        (wrote @ cmd_events w (tag_commands (Version addon)) dir)"
      unfolding turn
      by (rule io_bind_Inr [where m = "run_all_cmd w (tag_commands (Version addon)) dir"])
    with create_tag_release_first [of w addon token "[zpath, p]"
        "wrote @ cmd_events w (tag_commands (Version addon)) dir"]
    obtain evs where "snd turn = (wrote @ cmd_events w (tag_commands (Version addon)) dir) @
        CreateRelease token ''ogri-la'' (Slug addon) (Version addon) # evs"
      by auto
    then show ?thesis
      using True None by (simp add: wrote_def)
  next
    case False
    then obtain k where k: "k < 4"
      "exited_nonzero (command_outcome w (tag_commands (Version addon)) dir wrote k)"
      by blast
    then obtain q where q: "fst (run_all_cmd w (tag_commands (Version addon)) dir wrote) = Inl q"
      using run_all_cmd_some_fail [of k "tag_commands (Version addon)" w dir wrote]
      by (auto simp: length_tag_commands)
    from emits_run_all_cmd [of w "tag_commands (Version addon)" dir wrote]
    obtain n where n: "snd (run_all_cmd w (tag_commands (Version addon)) dir wrote) =
        wrote @ take n (cmd_events w (tag_commands (Version addon)) dir)"
      unfolding emits_def by blast
    from q n have "run_all_cmd w (tag_commands (Version addon)) dir wrote =
        (Inl q, wrote @ take n (cmd_events w (tag_commands (Version addon)) dir))"
      by (cases "run_all_cmd w (tag_commands (Version addon)) dir wrote") simp
    then have "turn = (Inl q, wrote @ take n (cmd_events w (tag_commands (Version addon)) dir))"
      unfolding turn
      by (rule io_bind_Inl [where m = "run_all_cmd w (tag_commands (Version addon)) dir"])
    then have "drop (length t) (snd turn) =
        [WriteFile p doc, Stderr (''wrote: '' @ p)] @
        take n (cmd_events w (tag_commands (Version addon)) dir)"
      by (simp add: wrote_def)
    moreover have "CreateRelease token ''ogri-la'' (Slug addon) (Version addon) \<notin>
        set (take n (cmd_events w (tag_commands (Version addon)) dir))"
      using CreateRelease_not_in_cmd_events by (blast dest: in_set_takeD)
    ultimately show ?thesis
      using False by simp
  qed
qed

lemma release_gate_panic:
  fixes w addon token dir zpath doc t
  defines "p \<equiv> filepath_Join w dir ''release.json''"
  defines "wrote \<equiv> t @ [WriteFile p doc, Stderr (''wrote: '' @ p)]"
  assumes "os_WriteFile w t p doc = None"
    and "k < 4"
    and "\<And>j. j < k \<Longrightarrow>
           \<not> exited_nonzero (command_outcome w (tag_commands (Version addon)) dir wrote j)"
    and "command_outcome w (tag_commands (Version addon)) dir wrote k = RunExitError code out err"
    and "code \<noteq> 0"
  shows "io_bind (write_release_json w doc dir)
           (\<lambda>p. io_bind (tag_addon w (Version addon) dir)
             (\<lambda>_. create_tag_release w addon token [zpath, p])) t =
         (Inl (command_failed w (tag_commands (Version addon) ! k) err),
          wrote @ cmd_events w (take (Suc k) (tag_commands (Version addon))) dir)"
proof -
  from assms(3) have w: "write_release_json w doc dir t = (Inr p, wrote)"
    unfolding p_def wrote_def by (simp add: write_release_json_cases)
  have "run_all_cmd w (tag_commands (Version addon)) dir wrote =
       (Inl (command_failed w (tag_commands (Version addon) ! k) err),
        wrote @ cmd_events w (take (Suc k) (tag_commands (Version addon))) dir)"
    using assms(4-7) by (intro run_all_cmd_fail) (simp_all add: length_tag_commands)
  then show ?thesis
    by (simp add: io_bind_Inr [where m = "write_release_json w doc dir" and t = t, OF w]
        tag_addon_run_all_cmd
        io_bind_Inl [where m = "run_all_cmd w (tag_commands (Version addon)) dir"])
qed

lemma mirror_addon_turn:
  assumes "fetch_repo w addon script_path t0 = (Inr (), t1)"
    and "filepath_Abs w t1 (Slug addon) = (dir, None)"
    and "fetch_addon_version w dir (t1 @ [Abs (Slug addon)]) = (Inr current_version, t2)"
    and "current_version \<noteq> Version addon"
    and "download_addon app addon dir (t2 @ [update_detected addon current_version]) = (Inr zpath, t3)"
    and "gen_release_json addon dir (Base zpath) = Inr doc"
  shows "mirror_addon w app script_path token addon t0 =
     io_bind (write_release_json w doc dir)
       (\<lambda>p. io_bind (tag_addon w (Version addon) dir)
         (\<lambda>_. create_tag_release w addon token [zpath, p])) t3"
  by (simp add: mirror_addon_out_of_date [OF assms(1-4)] io_bind_Inr [where m = "download_addon app addon dir" and t = "t2 @ [update_detected addon current_version]", OF assms(5)] assms(6)
        io_bind_lift_Inr)

lemma emits_turn:
  "emits (io_bind (write_release_json w doc dir)
       (\<lambda>p. io_bind (tag_addon w (Version addon) dir)
         (\<lambda>_. create_tag_release w addon token [zpath, p]))) t3
     (publish_events w addon token dir zpath doc t3)"
  unfolding publish_events_def local_events_def
proof (rule emits_seq [OF emits_write_release_json])
  fix p
  assume "fst (write_release_json w doc dir t3) = Inr p"
  then have p: "p = filepath_Join w dir ''release.json''"
    by (rule write_release_json_result)
  show "emits (io_bind (tag_addon w (Version addon) dir)
           (\<lambda>_. create_tag_release w addon token [zpath, p]))
         (t3 @ [WriteFile (filepath_Join w dir ''release.json'') doc,
                Stderr (''wrote: '' @ filepath_Join w dir ''release.json'')])
         (cmd_events w (tag_commands (Version addon)) dir @
          release_events w addon token
            (fst (Repositories_CreateRelease w
               (t3 @ [WriteFile (filepath_Join w dir ''release.json'') doc,
                Stderr (''wrote: '' @ filepath_Join w dir ''release.json'')] @
                cmd_events w (tag_commands (Version addon)) dir) token ''ogri-la''
             (Slug addon) (Version addon)))
            [zpath, filepath_Join w dir ''release.json''])"
    unfolding p
    by (rule emits_bind [OF emits_tag_addon])
      (use emits_create_tag_release [of w addon token "[zpath, filepath_Join w dir ''release.json'']"
          "(t3 @ [WriteFile (filepath_Join w dir ''release.json'') doc,
                Stderr (''wrote: '' @ filepath_Join w dir ''release.json'')]) @
                cmd_events w (tag_commands (Version addon)) dir"] in simp)
qed simp


lemmas demo_defs = demo_world_def demo_addon_def ascii_TrimSpace_def ascii_ToLower_def
  is_space_def written_def executing_def

lemma demo_fetch_repo:
  "fetch_repo (demo_world tag) demo_addon ''/srv'' [] =
     (Inr (),
      [executing (demo_world tag) ''rm -rf elvui'' ''/srv'', Exec ''rm -rf elvui'' ''/srv'',
       executing (demo_world tag) ''git clone ssh://git@github.com/ogri-la/elvui'' ''/srv'',
       Exec ''git clone ssh://git@github.com/ogri-la/elvui'' ''/srv''])"
  by (simp add: fetch_repo_def run_cmd_result io_defs ensure_def demo_defs)

lemma demo_fetch_addon_version:
  "fetch_addon_version (demo_world ''13.33'') ''/srv/elvui'' t =
     (Inr ''13.33'',
      t @ [executing (demo_world ''13.33'') ''git describe --tags --abbrev=0'' ''/srv/elvui'',
       Exec ''git describe --tags --abbrev=0'' ''/srv/elvui''])"
  by (simp add: fetch_addon_version_def run_cmd_result io_defs demo_defs)

theorem mirror_skips_up_to_date_witness:
  "mirror_loop (demo_world ''13.33'') (TukuiMirror (demo_world ''13.33'')) ''/srv'' ''token''
     [demo_addon] [] =
   (Inr (),
    [executing (demo_world ''13.33'') ''rm -rf elvui'' ''/srv'', Exec ''rm -rf elvui'' ''/srv'',
     executing (demo_world ''13.33'') ''git clone ssh://git@github.com/ogri-la/elvui'' ''/srv'',
     Exec ''git clone ssh://git@github.com/ogri-la/elvui'' ''/srv'',
     Abs ''elvui'',
     executing (demo_world ''13.33'') ''git describe --tags --abbrev=0'' ''/srv/elvui'',
     Exec ''git describe --tags --abbrev=0'' ''/srv/elvui'',
     Stderr ''13.33 == 13.33, skipping''])"
proof -
  have abs: "filepath_Abs (demo_world ''13.33'')
      [executing (demo_world ''13.33'') ''rm -rf elvui'' ''/srv'', Exec ''rm -rf elvui'' ''/srv'',
       executing (demo_world ''13.33'') ''git clone ssh://git@github.com/ogri-la/elvui'' ''/srv'',
       Exec ''git clone ssh://git@github.com/ogri-la/elvui'' ''/srv''] (Slug demo_addon) =
     (''/srv/elvui'', None)"
    by (simp add: demo_world_def demo_addon_def)
  have v: "Version demo_addon = ''13.33''" and s: "Slug demo_addon = ''elvui''"
    by (simp_all add: demo_addon_def)
  show ?thesis
    using mirror_skips_up_to_date [OF demo_fetch_repo abs, 
        of _ "TukuiMirror (demo_world ''13.33'')" "''token''" "[]"]
      demo_fetch_addon_version
    by (simp add: v s io_return_def)
qed

theorem run_cmd_hides_start_failure_witness:
  "run_cmd
     (demo_world ''13.32''\<lparr>cmd_Run := \<lambda>t command path.
        RunOtherError (ExtError ''fork/exec /usr/bin/bash: resource temporarily unavailable'') [] []\<rparr>)
     ''git push --tags'' ''/srv/elvui'' [] =
     (Inr (0, [], []),
      [Stderr ''executing /usr/bin/bash -c git push --tags in /srv/elvui'',
       Exec ''git push --tags'' ''/srv/elvui'']) \<and>
   run_all_cmd
     (demo_world ''13.32''\<lparr>cmd_Run := \<lambda>t command path.
        RunOtherError (ExtError ''fork/exec /usr/bin/bash: resource temporarily unavailable'') [] []\<rparr>)
     [''git push --tags''] ''/srv/elvui'' [] =
     (Inr (),
      [Stderr ''executing /usr/bin/bash -c git push --tags in /srv/elvui'',
       Exec ''git push --tags'' ''/srv/elvui''])"
  using run_cmd_hides_start_failure [of
      "demo_world ''13.32''\<lparr>cmd_Run := \<lambda>t command path.
        RunOtherError (ExtError ''fork/exec /usr/bin/bash: resource temporarily unavailable'') [] []\<rparr>"
      "[]" "''git push --tags''" "''/srv/elvui''"
      "ExtError ''fork/exec /usr/bin/bash: resource temporarily unavailable''" "[]" "[]" "[]"]
  by (simp add: demo_defs io_return_def)



theorem publish_unknown_asset_counterexample:
  "create_tag_release (demo_world ''13.32'') demo_addon ''token''
     [''/srv/elvui/elvui--13.33.zip'', ''/srv/elvui/notes.tar''] [] =
     (Inl (Panic ''failed to guess mime for given path: /srv/elvui/notes.tar''),
      [CreateRelease ''token'' ''ogri-la'' ''elvui'' ''13.33'',
       Open ''/srv/elvui/elvui--13.33.zip'',
       UploadReleaseAsset ''token'' ''ogri-la'' ''elvui'' 7
         \<lparr>UploadName = ''elvui--13.33.zip'', Label = ''elvui--13.33.zip'',
          MediaType = ''application/zip''\<rparr> ''/srv/elvui/elvui--13.33.zip''])"
  by (simp add: create_tag_release_def io_defs guess_media_type_def Ext_def Base_def Let_def
      panicOnErr_def demo_defs)

theorem publish_unknown_asset_witness:
  "\<not> known_media_type (demo_world ''13.32'') ''/srv/elvui/notes.tar'' \<and>
   create_tag_release (demo_world ''13.32'') demo_addon ''token''
     [''/srv/elvui/elvui--13.33.zip'', ''/srv/elvui/notes.tar'', ''/srv/elvui/release.json''] [] =
     (Inl (Panic ''failed to guess mime for given path: /srv/elvui/notes.tar''),
      [CreateRelease ''token'' ''ogri-la'' ''elvui'' ''13.33'',
       Open ''/srv/elvui/elvui--13.33.zip'',
       UploadReleaseAsset ''token'' ''ogri-la'' ''elvui'' 7
         \<lparr>UploadName = ''elvui--13.33.zip'', Label = ''elvui--13.33.zip'',
          MediaType = ''application/zip''\<rparr> ''/srv/elvui/elvui--13.33.zip'']) \<and>
   create_tag_release (demo_world ''13.32'') demo_addon ''token''
     [''/srv/elvui/notes.tar'', ''/srv/elvui/release.json''] [] =
     (Inl (Panic ''failed to guess mime for given path: /srv/elvui/notes.tar''),
      [CreateRelease ''token'' ''ogri-la'' ''elvui'' ''13.33''])"
proof -
  have u: "\<not> known_media_type (demo_world ''13.32'') ''/srv/elvui/notes.tar''"
    by (simp add: known_media_type_def Ext_def demo_defs)
  have z: "create_tag_release (demo_world ''13.32'') demo_addon ''token''
     [''/srv/elvui/elvui--13.33.zip''] [] =
     (Inr (), [CreateRelease ''token'' ''ogri-la'' ''elvui'' ''13.33'',
       Open ''/srv/elvui/elvui--13.33.zip'',
       UploadReleaseAsset ''token'' ''ogri-la'' ''elvui'' 7
         \<lparr>UploadName = ''elvui--13.33.zip'', Label = ''elvui--13.33.zip'',
          MediaType = ''application/zip''\<rparr> ''/srv/elvui/elvui--13.33.zip''])"
    by (simp add: create_tag_release_def io_defs guess_media_type_def Ext_def Base_def Let_def
      panicOnErr_def demo_defs)
  have e: "create_tag_release (demo_world ''13.32'') demo_addon ''token'' [] [] =
     (Inr (), [CreateRelease ''token'' ''ogri-la'' ''elvui'' ''13.33''])"
    by (simp add: create_tag_release_def io_defs panicOnErr_def demo_defs)
  show ?thesis
    using publish_unknown_asset [OF u, of demo_addon "''token''" "[''/srv/elvui/elvui--13.33.zip'']"
        "[''/srv/elvui/release.json'']" "[]"]
      publish_unknown_asset [OF u, of demo_addon "''token''" "[]"
        "[''/srv/elvui/release.json'']" "[]"] u z e
    by simp
qed

lemma demo_gen_release_json:
  "gen_release_json demo_addon ''/srv/elvui'' ''elvui--13.33.zip'' = Inr demo_doc"
proof -
  have "patch_to_flavour ''10.1.0'' = Inr ''mainline''"
    by (simp add: patch_to_flavour_def flavour_table_def)
  moreover have "patch_to_interface ''10.1.0'' = Inr 100100"
    using patch_to_interface_three [of "''10''" 10 "''1''" 1 "''0''"]
    by (simp add: Atoi_def is_digit_def digit_val_def)
  ultimately show ?thesis
    by (simp add: gen_release_json_def demo_addon_def demo_doc_def)
qed

lemma demo_world_push_sel:
  "strings_TrimSpace (demo_world_push r) = ascii_TrimSpace"
  "strings_ToLower (demo_world_push r) = ascii_ToLower"
  "filepath_Join (demo_world_push r) = (\<lambda>dir name. dir @ ''/'' @ name)"
  "bash_path (demo_world_push r) = ''/usr/bin/bash''"
  "cmd_Run (demo_world_push r) = (\<lambda>t command path.
         if command = ''git push --tags'' then r
         else if command = ''git describe --tags --abbrev=0'' then RunNil (''13.32'' @ ''\<newline>'') []
         else RunNil [] [])"
  "filepath_Abs (demo_world_push r) = (\<lambda>t path. (''/srv/'' @ path, None))"
  "os_Stat (demo_world_push r) = (\<lambda>t path. if written t path then StatInfo else StatErrNotExist)"
  "http_Get (demo_world_push r) = (\<lambda>t url. (\<lparr>StatusCode = 200, Body = (''PK'', None)\<rparr>, None))"
  "os_WriteFile (demo_world_push r) = (\<lambda>t path content. None)"
  "Repositories_CreateRelease (demo_world_push r) = (\<lambda>t token owner repo tag. (7, None))"
  "os_Open (demo_world_push r) = (\<lambda>t path. None)"
  "Repositories_UploadReleaseAsset (demo_world_push r) =
     (\<lambda>t token owner repo release_id opts path. None)"
  by (simp_all add: demo_world_push_def demo_world_def fun_eq_iff)

lemma executing_demo_push:
  "executing (demo_world_push r) c p = Stderr (''executing /usr/bin/bash -c '' @ c @ '' in '' @ p)"
  by (simp add: executing_def demo_world_push_sel)

lemma demo_push_run:
  "fetch_repo (demo_world_push r) demo_addon ''/srv'' [] = (Inr (), demo_cloned)"
  "filepath_Abs (demo_world_push r) demo_cloned (Slug demo_addon) = (''/srv/elvui'', None)"
  "fetch_addon_version (demo_world_push r) ''/srv/elvui'' (demo_cloned @ [Abs (Slug demo_addon)]) =
     (Inr ''13.32'', demo_described)"
  "''13.32'' \<noteq> Version demo_addon"
  "download_addon (TukuiMirror (demo_world_push r)) demo_addon ''/srv/elvui''
     (demo_described @ [update_detected demo_addon ''13.32'']) =
     (Inr ''/srv/elvui/elvui--13.33.zip'', demo_downloaded)"
  "gen_release_json demo_addon ''/srv/elvui'' (Base ''/srv/elvui/elvui--13.33.zip'') = Inr demo_doc"
proof -
  show "fetch_repo (demo_world_push r) demo_addon ''/srv'' [] = (Inr (), demo_cloned)"
    by (simp add: fetch_repo_def run_cmd_result io_defs ensure_def demo_world_push_sel
        executing_demo_push demo_addon_def demo_cloned_def)
  show "filepath_Abs (demo_world_push r) demo_cloned (Slug demo_addon) = (''/srv/elvui'', None)"
    by (simp add: demo_world_push_sel demo_addon_def)
  show "fetch_addon_version (demo_world_push r) ''/srv/elvui'' (demo_cloned @ [Abs (Slug demo_addon)]) =
     (Inr ''13.32'', demo_described)"
    by (simp add: fetch_addon_version_def run_cmd_result io_defs demo_world_push_sel
        executing_demo_push demo_addon_def demo_described_def ascii_TrimSpace_def is_space_def)
  show "''13.32'' \<noteq> Version demo_addon"
    by (simp add: demo_addon_def)
  show "download_addon (TukuiMirror (demo_world_push r)) demo_addon ''/srv/elvui''
     (demo_described @ [update_detected demo_addon ''13.32'']) =
     (Inr ''/srv/elvui/elvui--13.33.zip'', demo_downloaded)"
    by (simp add: TukuiMirror_def TukuiMirror_download_addon_def file_exists_def io_defs Let_def
        panicOnErr_def ensure_def demo_world_push_sel demo_addon_def update_detected_def
        written_def demo_described_def demo_cloned_def demo_downloaded_def)
  show "gen_release_json demo_addon ''/srv/elvui'' (Base ''/srv/elvui/elvui--13.33.zip'') = Inr demo_doc"
    using demo_gen_release_json by (simp add: Base_def)
qed

lemma demo_addon_sel:
  "Name demo_addon = ''ElvUI''" "Version demo_addon = ''13.33''"
  "PatchList demo_addon = [''10.1.0'']" "Slug demo_addon = ''elvui''"
  by (simp_all add: demo_addon_def)

lemma demo_push_publish_events:
  "publish_events (demo_world_push r) demo_addon ''token'' ''/srv/elvui''
     ''/srv/elvui/elvui--13.33.zip'' demo_doc t =
    [WriteFile ''/srv/elvui/release.json'' demo_doc,
     Stderr ''wrote: /srv/elvui/release.json'',
     Stderr ''executing /usr/bin/bash -c git commit -m 13.33 --allow-empty in /srv/elvui'',
     Exec ''git commit -m 13.33 --allow-empty'' ''/srv/elvui'',
     Stderr ''executing /usr/bin/bash -c git tag 13.33 in /srv/elvui'',
     Exec ''git tag 13.33'' ''/srv/elvui'',
     Stderr ''executing /usr/bin/bash -c git push in /srv/elvui'',
     Exec ''git push'' ''/srv/elvui'',
     Stderr ''executing /usr/bin/bash -c git push --tags in /srv/elvui'',
     Exec ''git push --tags'' ''/srv/elvui'',
     CreateRelease ''token'' ''ogri-la'' ''elvui'' ''13.33'',
     Open ''/srv/elvui/elvui--13.33.zip'',
     UploadReleaseAsset ''token'' ''ogri-la'' ''elvui'' 7
       \<lparr>UploadName = ''elvui--13.33.zip'', Label = ''elvui--13.33.zip'',
        MediaType = ''application/zip''\<rparr> ''/srv/elvui/elvui--13.33.zip'',
     Open ''/srv/elvui/release.json'',
     UploadReleaseAsset ''token'' ''ogri-la'' ''elvui'' 7
       \<lparr>UploadName = ''release.json'', Label = ''release.json'',
        MediaType = ''application/json''\<rparr> ''/srv/elvui/release.json'']"
  by (simp add: publish_events_def local_events_def release_events_def asset_events_def
        cmd_events_def tag_commands_def media_type_of_def guess_media_type_def Ext_def Base_def
        Let_def demo_world_push_sel executing_demo_push ascii_ToLower_def demo_addon_sel)

lemma demo_push_outcome:
  "command_outcome (demo_world_push r) (tag_commands ''13.33'') ''/srv/elvui'' t 0 = RunNil [] []"
  "command_outcome (demo_world_push r) (tag_commands ''13.33'') ''/srv/elvui'' t (Suc 0) = RunNil [] []"
  "command_outcome (demo_world_push r) (tag_commands ''13.33'') ''/srv/elvui'' t (Suc (Suc 0)) = RunNil [] []"
  "command_outcome (demo_world_push r) (tag_commands ''13.33'') ''/srv/elvui'' t (Suc (Suc (Suc 0))) = r"
  by (simp_all add: command_outcome_def tag_commands_def demo_world_push_sel)



section \<open>The metadata document: reading it back\<close>

lemma parse_shorter:
  "(\<forall>v r. parse_value ts = Some (v, r) \<longrightarrow> length r < length ts)"
  "(\<forall>vs r. parse_elems ts2 = Some (vs, r) \<longrightarrow> length r < length ts2)"
  "(\<forall>ms r. parse_members ts3 = Some (ms, r) \<longrightarrow> length r < length ts3)"
proof (induction ts and ts2 and ts3 rule: parse_value_parse_elems_parse_members.induct)
  case (8 ts)
  then show ?case by (auto simp: starts_with_def less_Suc_eq split: if_splits)
next
  case (9 ts)
  then show ?case by (auto simp: starts_with_def less_Suc_eq split: if_splits)
next
  case (14 ts)
  show ?case
  proof (intro allI impI)
    fix vs r assume a: "parse_elems ts = Some (vs, r)"
    then obtain v r0 where v: "parse_value ts = Some (v, r0)"
      by (subst (asm) parse_elems.simps) (auto split: option.splits)
    then have l0: "length r0 < length ts" using 14(1) by blast
    show "length r < length ts"
    proof (cases "starts_with TComma r0")
      case True
      with a v have g: "length (tl r0) < length ts"
        and "\<exists>vs'. parse_elems (tl r0) = Some (vs', r)"
        by (subst (asm) parse_elems.simps; auto split: if_splits)+
      with 14(2) [OF v refl True g] show ?thesis by auto
    next
      case False
      with a v have "r = tl r0" 
        by (subst (asm) parse_elems.simps) (auto split: if_splits)
      with l0 show ?thesis by (cases r0) auto
    qed
  qed
next
  case (15 ts)
  show ?case
  proof (intro allI impI)
    fix ms r assume a: "parse_members ts = Some (ms, r)"
    then obtain k rk where k: "member_key ts = Some (k, rk)"
      by (subst (asm) parse_members.simps) (auto split: option.splits)
    with a obtain v r0 where v: "parse_value rk = Some (v, r0)"
      by (subst (asm) parse_members.simps) (auto split: option.splits)
    have l0: "length r0 < length ts"
      using 15(1) [OF k refl] v member_key_rest [OF k] by fastforce
    show "length r < length ts"
    proof (cases "starts_with TComma r0")
      case True
      with a k v have g: "length (tl r0) < length ts"
        and "\<exists>ms'. parse_members (tl r0) = Some (ms', r)"
        by (subst (asm) parse_members.simps; auto split: if_splits)+
      with 15(2) [OF k refl v refl True g] show ?thesis by auto
    next
      case False
      with a k v have "r = tl r0" 
        by (subst (asm) parse_members.simps) (auto split: if_splits)
      with l0 show ?thesis by (cases r0) auto
    qed
  qed
qed simp_all

lemma parse_elems_eq:
  "parse_elems ts =
     (case parse_value ts of
        None \<Rightarrow> None
      | Some (v, r) \<Rightarrow>
          if starts_with TComma r then map_option (apfst (Cons v)) (parse_elems (tl r))
          else if starts_with TRBracket r then Some ([v], tl r)
          else None)"
proof (cases "parse_value ts")
  case None
  then show ?thesis by (subst parse_elems.simps) simp
next
  case (Some p)
  obtain v r where p: "p = (v, r)" by (cases p)
  have "length r < length ts" using Some p parse_shorter(1) by blast
  then have "length (tl r) < length ts" by (cases r) auto
  then show ?thesis using Some p by (subst parse_elems.simps) simp
qed

lemma parse_members_eq:
  "parse_members ts =
     (case member_key ts of
        None \<Rightarrow> None
      | Some (k, r) \<Rightarrow>
          (case parse_value r of
             None \<Rightarrow> None
           | Some (v, r1) \<Rightarrow>
               if starts_with TComma r1
               then map_option (apfst (Cons (k, v))) (parse_members (tl r1))
               else if starts_with TRBrace r1 then Some ([(k, v)], tl r1)
               else None))"
proof (cases "member_key ts")
  case None
  then show ?thesis by (subst parse_members.simps) simp
next
  case (Some q)
  obtain k r where q: "q = (k, r)" by (cases q)
  show ?thesis
  proof (cases "parse_value r")
    case None
    then show ?thesis using Some q by (subst parse_members.simps) simp
  next
    case (Some p)
    obtain v r1 where p: "p = (v, r1)" by (cases p)
    have "length r1 < length r" using Some p parse_shorter(1) by blast
    moreover have "length r < length ts" using \<open>member_key ts = Some q\<close> q member_key_rest by blast
    ultimately have "length (tl r1) < length ts" by (cases r1) auto
    then show ?thesis using Some p \<open>member_key ts = Some q\<close> q
      by (subst parse_members.simps) simp
  qed
qed

text \<open>rewrite rules on token lists of known shape\<close>

lemma parse_members_step:
  "parse_members (TString k # TColon # r) =
     (case parse_value r of
        None \<Rightarrow> None
      | Some (v, r1) \<Rightarrow>
          if starts_with TComma r1
          then map_option (apfst (Cons (k, v))) (parse_members (tl r1))
          else if starts_with TRBrace r1 then Some ([(k, v)], tl r1)
          else None)"
  by (subst parse_members_eq) (simp add: member_key_def)

lemma parse_elems_step:
  "parse_elems (t # ts) =
     (case parse_value (t # ts) of
        None \<Rightarrow> None
      | Some (v, r) \<Rightarrow>
          if starts_with TComma r then map_option (apfst (Cons v)) (parse_elems (tl r))
          else if starts_with TRBracket r then Some ([v], tl r)
          else None)"
  by (rule parse_elems_eq)


lemma lex_string_plain:
  "json_plain s \<Longrightarrow> lex_string (s @ CHR 0x22 # r) = Some (s, r)"
  by (induction s) (auto simp: json_plain_def decoded_def)

lemma hex4_Some_length:
  assumes "hex4 (u @ CHR 0x22 # t) = Some n"
  shows "4 \<le> length u"
proof (rule ccontr)
  assume "\<not> 4 \<le> length u"
  then have "CHR 0x22 \<in> set (take 4 (u @ CHR 0x22 # t))"
    by (cases "4 - length u") auto
  moreover have "list_all is_hex (take 4 (u @ CHR 0x22 # t))"
    using assms by (simp add: hex4_def split: if_splits)
  ultimately have "is_hex (CHR 0x22)" by (simp add: list_all_iff)
  then show False by (simp add: is_hex_def)
qed

lemma utf8_length: "length (utf8 n) \<le> 4"
  by (simp add: utf8_def)

lemma decoded_Some:
  "decoded ds x = Some (d, r) \<Longrightarrow> \<exists>d'. x = Some (d', r) \<and> d = ds @ d'"
  by (cases x) (auto simp: decoded_def)

lemma lex_string_unicode:
  assumes "lex_string (CHR 0x5C # CHR ''u'' # x) = Some (d, r)"
  shows "hex4 x \<noteq> None \<and>
         (\<exists>ds d'. length ds \<le> 4 \<and> d = ds @ d' \<and>
            (lex_string (drop 4 x) = Some (d', r) \<or>
             (take 2 (drop 4 x) = [CHR 0x5C, CHR ''u''] \<and> hex4 (drop 6 x) \<noteq> None \<and>
              lex_string (drop 10 x) = Some (d', r))))"
  using assms utf8_length
  by (auto split: option.splits if_splits dest!: decoded_Some)

lemma take2_quote:
  assumes "take 2 (v @ CHR 0x22 # t) = [CHR 0x5C, CHR ''u'']"
  shows "2 \<le> length v"
proof (rule ccontr)
  assume "\<not> 2 \<le> length v"
  then consider "v = []" | a where "v = [a]"
    by (cases v; cases "tl v") auto
  then show False using assms by cases auto
qed

lemma lex_string_faithful:
  assumes "lex_string (u @ CHR 0x22 # t) = Some (d, r)" and "lex_string t = None"
  shows "(json_plain u \<and> d = u \<and> r = t) \<or> length d < length u"
  using assms(1)
proof (induction "length u" arbitrary: u d r rule: less_induct)
  case less
  have IH: "\<And>v d' r'. length v < length u \<Longrightarrow> lex_string (v @ CHR 0x22 # t) = Some (d', r')
      \<Longrightarrow> length d' \<le> length v"
    using less.hyps by fastforce
  show ?case
  proof (cases u)
    case Nil
    with less.prems show ?thesis by (simp add: json_plain_def)
  next
    case (Cons c cs)
    consider (quote) "c = CHR 0x22" | (esc) "c = CHR 0x5C"
      | (plain) "c \<noteq> CHR 0x22" "c \<noteq> CHR 0x5C"
      by blast
    then show ?thesis
    proof cases
      case quote
      with less.prems Cons show ?thesis by simp
    next
      case plain
      with less.prems Cons obtain d' where
        c: "(32::nat) \<le> of_char c" and d: "d = c # d'"
        and rec: "lex_string (cs @ CHR 0x22 # t) = Some (d', r)"
        by (auto split: if_splits dest!: decoded_Some)
      from less.hyps [of cs d' r] rec Cons
      have "(json_plain cs \<and> d' = cs \<and> r = t) \<or> length d' < length cs" by simp
      with plain c d Cons show ?thesis by (auto simp: json_plain_def)
    next
      case esc
      show ?thesis
      proof (cases cs)
        case Nil
        with less.prems Cons esc assms(2) show ?thesis
          by (simp add: simple_escape_def decoded_def)
      next
        case (Cons e x)
        note cs = Cons
        show ?thesis
        proof (cases "e = CHR ''u''")
          case False
          with less.prems \<open>u = c # cs\<close> esc cs obtain b d' where
            d: "d = b # d'" and rec: "lex_string (x @ CHR 0x22 # t) = Some (d', r)"
            by (auto split: option.splits dest!: decoded_Some)
          from IH [OF _ rec] \<open>u = c # cs\<close> cs have "length d' \<le> length x" by simp
          with d \<open>u = c # cs\<close> cs show ?thesis by (intro disjI2) simp
        next
          case True
          from less.prems \<open>u = c # cs\<close> esc cs True
          have l: "lex_string (CHR 0x5C # CHR ''u'' # (x @ CHR 0x22 # t)) = Some (d, r)"
            by simp
          from lex_string_unicode [OF l] obtain ds d' where
            h: "hex4 (x @ CHR 0x22 # t) \<noteq> None" and ds: "length ds \<le> 4" and d: "d = ds @ d'"
            and alt: "lex_string (drop 4 (x @ CHR 0x22 # t)) = Some (d', r) \<or>
             (take 2 (drop 4 (x @ CHR 0x22 # t)) = [CHR 0x5C, CHR ''u''] \<and>
              hex4 (drop 6 (x @ CHR 0x22 # t)) \<noteq> None \<and>
              lex_string (drop 10 (x @ CHR 0x22 # t)) = Some (d', r))"
            by blast
          from h have x4: "4 \<le> length x" using hex4_Some_length by blast
          from alt show ?thesis
          proof
            assume "lex_string (drop 4 (x @ CHR 0x22 # t)) = Some (d', r)"
            then have rec: "lex_string (drop 4 x @ CHR 0x22 # t) = Some (d', r)"
              using x4 by simp
            have "length d' \<le> length (drop 4 x)"
              by (rule IH [OF _ rec]) (simp add: \<open>u = c # cs\<close> cs)
            with ds d x4 \<open>u = c # cs\<close> cs show ?thesis by (intro disjI2) simp
          next
            assume a: "take 2 (drop 4 (x @ CHR 0x22 # t)) = [CHR 0x5C, CHR ''u''] \<and>
              hex4 (drop 6 (x @ CHR 0x22 # t)) \<noteq> None \<and>
              lex_string (drop 10 (x @ CHR 0x22 # t)) = Some (d', r)"
            then have "take 2 (drop 4 x @ CHR 0x22 # t) = [CHR 0x5C, CHR ''u'']"
              using x4 by simp
            then have "2 \<le> length (drop 4 x)" by (rule take2_quote)
            then have x6: "6 \<le> length x" by simp
            with a have "hex4 (drop 6 x @ CHR 0x22 # t) \<noteq> None" by simp
            then have "4 \<le> length (drop 6 x)" using hex4_Some_length by blast
            then have x10: "10 \<le> length x" by simp
            with a have rec: "lex_string (drop 10 x @ CHR 0x22 # t) = Some (d', r)" by simp
            have "length d' \<le> length (drop 10 x)"
              by (rule IH [OF _ rec]) (simp add: \<open>u = c # cs\<close> cs)
            with ds d x10 \<open>u = c # cs\<close> cs show ?thesis by (intro disjI2) simp
          qed
        qed
      qed
    qed
  qed
qed

lemma of_char_digit_char: "d < 10 \<Longrightarrow> (of_char (digit_char d) :: nat) = 48 + d"
  by (simp add: digit_char_def)

lemma t0: "digit_char 0 = CHR ''0''"
proof -
  have "(of_char (digit_char 0) :: nat) = of_char CHR ''0''"
    by (simp add: digit_char_def)
  then show ?thesis by (simp only: of_char_eq_iff)
qed

lemma digit_char_props:
  assumes "d < 10"
  shows "is_digit (digit_char d)" and "digit_val (digit_char d) = d"
    and "digit_char d = CHR ''0'' \<longleftrightarrow> d = 0"
proof -
  show "is_digit (digit_char d)" "digit_val (digit_char d) = d"
    using assms by (simp_all add: is_digit_def digit_val_def of_char_digit_char)
  show "digit_char d = CHR ''0'' \<longleftrightarrow> d = 0"
  proof
    assume "digit_char d = CHR ''0''"
    then have "(of_char (digit_char d) :: nat) = of_char CHR ''0''" by simp
    then show "d = 0" using assms by (simp add: of_char_digit_char)
  qed (simp add: t0)
qed


lemma nat_to_dec_digits: "list_all is_digit (nat_to_dec n)"
  by (induction n rule: nat_to_dec.induct)
     (subst nat_to_dec.simps, simp add: digit_char_props)

lemma nat_to_dec_nonempty: "nat_to_dec n \<noteq> []"
  by (subst nat_to_dec.simps) simp

lemma nat_to_dec_hd:
  "hd (nat_to_dec n) = CHR ''0'' \<Longrightarrow> n = 0"
proof (induction n rule: nat_to_dec.induct)
  case (1 n)
  show ?case
  proof (cases "n < 10")
    case True
    with 1(2) show ?thesis
      by (subst (asm) nat_to_dec.simps) (simp add: digit_char_props)
  next
    case False
    with 1(2) have "hd (nat_to_dec (n div 10)) = CHR ''0''"
      by (subst (asm) nat_to_dec.simps) (simp add: nat_to_dec_nonempty)
    with 1(1) False have "n div 10 = 0" by simp
    with False show ?thesis by simp
  qed
qed

lemma nat_to_dec_length: "1 < length (nat_to_dec n) \<Longrightarrow> 10 \<le> n"
  by (subst (asm) nat_to_dec.simps) (simp split: if_splits)

lemma dec_value_snoc: "dec_value m (xs @ [c]) = 10 * dec_value m xs + digit_val c"
  by (induction xs arbitrary: m) simp_all

lemma dec_value_nat_to_dec: "dec_value 0 (nat_to_dec n) = n"
  by (induction n rule: nat_to_dec.induct)
     (subst nat_to_dec.simps, simp add: dec_value_snoc digit_char_props)

lemma takeWhile_digits:
  assumes "list_all is_digit ds" and "\<not> is_digit c"
  shows "takeWhile is_digit (ds @ c # r) = ds" and "dropWhile is_digit (ds @ c # r) = c # r"
proof -
  from assms(1) have "\<And>x. x \<in> set ds \<Longrightarrow> is_digit x" by (simp add: list_all_iff)
  then show "takeWhile is_digit (ds @ c # r) = ds" "dropWhile is_digit (ds @ c # r) = c # r"
    using assms(2) by (simp_all add: takeWhile_append2 dropWhile_append2)
qed

lemma newline_not_digit: "\<not> is_digit (CHR ''\<newline>'')"
  by (simp add: is_digit_def)

lemma hd_digits_not_minus:
  assumes "list_all is_digit ds" and "ds \<noteq> []"
  shows "hd ds \<noteq> CHR ''-''" and "is_digit (hd ds)"
  using assms by (cases ds; auto simp: is_digit_def)+

lemma lex_int_part_digits:
  assumes "list_all is_digit ds" and "ds \<noteq> []" and "1 < length ds \<longrightarrow> hd ds \<noteq> CHR ''0''"
  shows "lex_int_part (ds @ CHR ''\<newline>'' # rest) = Some (False, ds, CHR ''\<newline>'' # rest)"
    and "lex_int_part (CHR ''-'' # ds @ CHR ''\<newline>'' # rest) = Some (True, ds, CHR ''\<newline>'' # rest)"
  using assms hd_digits_not_minus [OF assms(1,2)]
  by (simp_all add: lex_int_part_def Let_def takeWhile_digits [OF assms(1) newline_not_digit])

lemma lex_number_digits:
  assumes "list_all is_digit ds" and "ds \<noteq> []" and "1 < length ds \<longrightarrow> hd ds \<noteq> CHR ''0''"
  shows "lex_number (ds @ CHR ''\<newline>'' # rest) =
           Some (TInt (int (dec_value 0 ds)), CHR ''\<newline>'' # rest)"
    and "lex_number (CHR ''-'' # ds @ CHR ''\<newline>'' # rest) =
           Some (TInt (- int (dec_value 0 ds)), CHR ''\<newline>'' # rest)"
  unfolding lex_number_def
  by (simp_all add: lex_int_part_digits [OF assms] lex_frac_def lex_exp_def)

lemma nat_to_dec_shape:
  "list_all is_digit (nat_to_dec n)" "nat_to_dec n \<noteq> []"
  "1 < length (nat_to_dec n) \<longrightarrow> hd (nat_to_dec n) \<noteq> CHR ''0''"
  using nat_to_dec_hd [of n] nat_to_dec_length [of n]
  by (auto simp: nat_to_dec_digits nat_to_dec_nonempty)

lemma lex_number_FormatInt:
  "lex_number (FormatInt i @ CHR ''\<newline>'' # rest) = Some (TInt i, CHR ''\<newline>'' # rest)"
proof (cases "i < 0")
  case True
  then show ?thesis
    using lex_number_digits(2) [OF nat_to_dec_shape, of "nat (- i)" rest]
    by (simp add: FormatInt_def dec_value_nat_to_dec)
next
  case False
  then show ?thesis
    using lex_number_digits(1) [OF nat_to_dec_shape, of "nat i" rest]
    by (simp add: FormatInt_def dec_value_nat_to_dec)
qed

lemma digit_not_punct:
  assumes "is_digit c"
  shows "\<not> is_ws c" "c \<noteq> CHR ''{''" "c \<noteq> CHR ''}''" "c \<noteq> CHR ''[''" "c \<noteq> CHR '']''"
    "c \<noteq> CHR '':''" "c \<noteq> CHR '',''" "c \<noteq> CHR 0x22"
  using assms by (auto simp: is_digit_def is_ws_def)

lemma lex_number_start:
  assumes "c = CHR ''-'' \<or> is_digit c"
  shows "lex (c # cs) =
     (case lex_number (c # cs) of None \<Rightarrow> None | Some (t, r) \<Rightarrow> map_option (Cons t) (lex r))"
proof (cases "is_digit c")
  case True
  then show ?thesis using digit_not_punct [OF True] by simp
next
  case False
  with assms have "c = CHR ''-''" by simp
  then show ?thesis by (simp add: is_ws_def)
qed

lemma lex_punct:
  "lex (CHR '' '' # cs) = lex cs"
  "lex (CHR ''\<newline>'' # cs) = lex cs"
  "lex (CHR ''{'' # cs) = map_option (Cons TLBrace) (lex cs)"
  "lex (CHR ''}'' # cs) = map_option (Cons TRBrace) (lex cs)"
  "lex (CHR ''['' # cs) = map_option (Cons TLBracket) (lex cs)"
  "lex (CHR '']'' # cs) = map_option (Cons TRBracket) (lex cs)"
  "lex (CHR '':'' # cs) = map_option (Cons TColon) (lex cs)"
  "lex (CHR '','' # cs) = map_option (Cons TComma) (lex cs)"
  "lex (CHR 0x22 # cs) =
     (case lex_string cs of None \<Rightarrow> None
      | Some (s, r) \<Rightarrow> map_option (Cons (TString s)) (lex r))"
  "lex (CHR ''f'' # CHR ''a'' # CHR ''l'' # CHR ''s'' # CHR ''e'' # cs) =
     map_option (Cons TFalse) (lex cs)"
  by (simp_all add: is_ws_def is_digit_def)

declare lex.simps(2) [simp del]

lemma lex_FormatInt:
  "lex (FormatInt i @ CHR ''\<newline>'' # rest) = map_option (Cons (TInt i)) (lex rest)"
proof -
  have "\<exists>c cs. FormatInt i = c # cs \<and> (c = CHR ''-'' \<or> is_digit c)"
  proof (cases "i < 0")
    case True
    then show ?thesis by (simp add: FormatInt_def)
  next
    case False
    obtain a list where n: "nat_to_dec (nat i) = a # list"
      using nat_to_dec_nonempty [of "nat i"] by (cases "nat_to_dec (nat i)") auto
    with hd_digits_not_minus(2) [OF nat_to_dec_shape(1,2), of "nat i"] have "is_digit a" by simp
    with False n show ?thesis by (simp add: FormatInt_def)
  qed
  then obtain c cs where f: "FormatInt i = c # cs" and c: "c = CHR ''-'' \<or> is_digit c"
    by blast
  have "lex (FormatInt i @ CHR ''\<newline>'' # rest) =
     (case lex_number (FormatInt i @ CHR ''\<newline>'' # rest) of None \<Rightarrow> None
      | Some (t, r) \<Rightarrow> map_option (Cons t) (lex r))"
    unfolding f using lex_number_start [OF c, of "cs @ CHR ''\<newline>'' # rest"] by simp
  then show ?thesis
    by (simp add: lex_number_FormatInt lex_punct)
qed

lemma lex_string_lit [simp]:
  "lex_string (CHR 0x22 # r) = Some ([], r)"
  by simp

lemma lex_entry:
  assumes "json_plain f"
  shows "lex (release_flavour_json f i @ rest) = map_option ((@) (entry_tokens f i)) (lex rest)"
proof -
  have s: "\<And>r. lex_string (f @ CHR 0x22 # r) = Some (f, r)"
    using assms by (rule lex_string_plain)
  show ?thesis
    by (cases "lex rest")
      (simp_all add: release_flavour_json_def entry_tokens_def lex_punct decoded_def s
        lex_FormatInt)
qed

lemma lex_metadata:
  assumes "list_all (\<lambda>(f, i). json_plain f) md"
  shows "lex (Join (map (\<lambda>(f, i). release_flavour_json f i) md) '', '' @ rest) =
           map_option ((@) (metadata_tokens md)) (lex rest)"
  using assms
proof (induction md rule: metadata_tokens.induct)
  case 1
  show ?case by (cases "lex rest") simp_all
next
  case (2 f i)
  then show ?case by (simp add: lex_entry)
next
  case (3 f i y r)
  then have "lex (Join (map (\<lambda>(f, i). release_flavour_json f i) (y # r)) '', '' @ rest) =
           map_option ((@) (metadata_tokens (y # r))) (lex rest)"
    by simp
  moreover from 3 have "json_plain f" by simp
  ultimately show ?case
    by (cases y; cases "lex rest") (simp_all add: lex_entry lex_punct)
qed

lemma parse_object_step:
  "parse_value (TLBrace # TString k # ts) =
     map_option (apfst JObject) (parse_members (TString k # ts))"
  by (simp add: starts_with_def)

lemma parse_array_step:
  "parse_value (TLBracket # TLBrace # ts) =
     map_option (apfst JArray) (parse_elems (TLBrace # ts))"
  by (simp add: starts_with_def)

declare parse_value.simps(8,9) [simp del]

lemma lex_document_decoded:
  assumes "\<And>r. lex_string (n @ CHR 0x22 # r) = Some (n', r)"
    and "\<And>r. lex_string (v @ CHR 0x22 # r) = Some (v', r)"
    and "\<And>r. lex_string (fn @ CHR 0x22 # r) = Some (fn', r)"
    and "list_all (\<lambda>(f, i). json_plain f) md"
  shows "lex (release_json n v fn (Join (map (\<lambda>(f, i). release_flavour_json f i) md) '', '')) =
           Some (document_tokens n' v' fn' md)"
  by (simp add: release_json_def document_tokens_def lex_punct decoded_def assms(1-3)
      lex_metadata [OF assms(4)])

lemma parse_entry:
  "parse_value (entry_tokens f i @ rest) = Some (metadata_entry f i, rest)"
  by (simp add: entry_tokens_def metadata_entry_def parse_object_step parse_members_step
      starts_with_def)

lemma entry_tokens_Cons: "\<exists>ts. entry_tokens f i = TLBrace # ts"
  by (simp add: entry_tokens_def)

lemma parse_metadata_elems:
  "md \<noteq> [] \<Longrightarrow>
     parse_elems (metadata_tokens md @ TRBracket # rest) =
       Some (map (\<lambda>(f, i). metadata_entry f i) md, rest)"
proof (induction md rule: metadata_tokens.induct)
  case 1
  then show ?case by simp
next
  case (2 f i)
  show ?case
    by (subst parse_elems_eq) (simp add: parse_entry starts_with_def)
next
  case (3 f i y r)
  then have "parse_elems (metadata_tokens (y # r) @ TRBracket # rest) =
       Some (map (\<lambda>(f, i). metadata_entry f i) (y # r), rest)"
    by simp
  then show ?case
    by (subst parse_elems_eq) (simp add: parse_entry starts_with_def)
qed

lemma metadata_tokens_start:
  "md \<noteq> [] \<Longrightarrow> \<not> starts_with TRBracket (metadata_tokens md @ rest)"
  by (induction md rule: metadata_tokens.induct) (simp_all add: starts_with_def entry_tokens_def)

lemma parse_metadata_array:
  "parse_value (TLBracket # metadata_tokens md @ TRBracket # rest) =
     Some (JArray (map (\<lambda>(f, i). metadata_entry f i) md), rest)"
proof (cases "md = []")
  case True
  then show ?thesis by (simp add: starts_with_def parse_value.simps)
next
  case False
  then show ?thesis
    by (simp add: metadata_tokens_start parse_metadata_elems parse_value.simps)
qed

lemma parse_document:
  "parse_value (document_tokens n v fn md) = Some (release_document n v fn md, [])"
  by (simp add: document_tokens_def release_document_def parse_object_step parse_array_step
      parse_members_step parse_elems_step starts_with_def parse_metadata_array)

lemma release_json_reads_decoded:
  assumes "\<And>r. lex_string (n @ CHR 0x22 # r) = Some (n', r)"
    and "\<And>r. lex_string (v @ CHR 0x22 # r) = Some (v', r)"
    and "\<And>r. lex_string (fn @ CHR 0x22 # r) = Some (fn', r)"
    and "list_all (\<lambda>(f, i). json_plain f) md"
  shows "parse_json (release_json n v fn (Join (map (\<lambda>(f, i). release_flavour_json f i) md) '', '')) =
           Some (release_document n' v' fn' md)"
  by (simp add: parse_json_def lex_document_decoded [OF assms] parse_document)

lemma release_json_reads_back:
  assumes "json_plain n" and "json_plain v" and "json_plain fn"
    and "list_all (\<lambda>(f, i). json_plain f) md"
  shows "parse_json (release_json n v fn (Join (map (\<lambda>(f, i). release_flavour_json f i) md) '', '')) =
           Some (release_document n v fn md)"
  by (rule release_json_reads_decoded [OF lex_string_plain [OF assms(1)]
        lex_string_plain [OF assms(2)] lex_string_plain [OF assms(3)] assms(4)])

lemma field_plain:
  assumes lexed: "lex (pre @ CHR 0x22 # x @ CHR 0x22 # R) = Some ts"
    and parsed: "parse_value ts = Some (D, [])"
    and pre: "\<And>Y. lex (pre @ Y) = map_option ((@) ptoks) (lex Y)"
    and tail: "lex_string R = None"
    and shape: "\<And>s ts'. parse_value (ptoks @ TString s # ts') = Some (D, []) \<Longrightarrow> s = x"
  shows "json_plain x"
proof -
  from lexed pre [of "CHR 0x22 # x @ CHR 0x22 # R"]
  obtain s r ts' where s: "lex_string (x @ CHR 0x22 # R) = Some (s, r)"
    and ts: "ts = ptoks @ TString s # ts'"
    by (auto simp: lex_punct split: option.splits)
  from parsed ts shape have "s = x" by blast
  with lex_string_faithful [OF s tail] show ?thesis by auto
qed

lemma members_first:
  assumes "parse_members (TString k # TColon # TString s # ts) = Some (ms, r)"
  shows "\<exists>ms'. ms = (k, JString s) # ms'"
  using assms by (auto simp: parse_members_step split: if_splits)

lemma members_next:
  "parse_members (TString k # TColon # TString s # TComma # ts) =
     map_option (apfst (Cons (k, JString s))) (parse_members ts)"
  by (simp add: parse_members_step starts_with_def)

lemma document_members:
  assumes "parse_value (TLBrace # TString ''releases'' # TColon # TLBracket # TLBrace #
             TString k # ms_tokens) = Some (release_document n v fn md, rest)"
  shows "\<exists>r. parse_members (TString k # ms_tokens) =
           Some ([(''name'', JString n), (''version'', JString v), (''filename'', JString fn),
                  (''nolib'', JBool False),
                  (''metadata'', JArray (map (\<lambda>(f, i). metadata_entry f i) md))], r)"
  using assms
  by (auto simp: parse_object_step parse_array_step parse_members_step [of "''releases''"]
      parse_elems_step release_document_def split: option.splits if_splits)

lemma release_json_name_plain:
  assumes "parse_json (release_json n v fn mj) = Some (release_document n v fn md)"
  shows "json_plain n"
proof -
  define pre where \<open>pre = ''{\<newline>    "releases": [\<newline>        {\<newline>            "name": ''\<close>
  define R where \<open>R = '',\<newline>            "version": "'' @ v @
     ''",\<newline>            "filename": "'' @ fn @
     ''",\<newline>            "nolib": false,\<newline>            "metadata": ['' @ mj @
     ''\<newline>            ]\<newline>        }\<newline>    ]\<newline>}\<newline>''\<close>
  define ptoks where "ptoks = [TLBrace, TString ''releases'', TColon, TLBracket, TLBrace,
      TString ''name'', TColon]"
  have doc: "release_json n v fn mj = pre @ CHR 0x22 # n @ CHR 0x22 # R"
    by (simp add: release_json_def pre_def R_def)
  from assms obtain ts where ts: "lex (pre @ CHR 0x22 # n @ CHR 0x22 # R) = Some ts"
    and p: "parse_value ts = Some (release_document n v fn md, [])"
    by (auto simp: parse_json_def doc split: option.splits list.splits)
  have pre: "\<And>Y. lex (pre @ Y) = map_option ((@) ptoks) (lex Y)"
    subgoal for Y
      by (cases "lex Y") (simp_all add: pre_def ptoks_def lex_punct decoded_def)
    done
  have tail: "lex_string R = None"
    by (simp add: R_def decoded_def)
  show ?thesis
  proof (rule field_plain [OF ts p pre tail])
    fix s ts'
    assume "parse_value (ptoks @ TString s # ts') = Some (release_document n v fn md, [])"
    then have "parse_value (TLBrace # TString ''releases'' # TColon # TLBracket # TLBrace #
             TString ''name'' # TColon # TString s # ts') = Some (release_document n v fn md, [])"
      by (simp add: ptoks_def)
    from document_members [OF this]
    obtain r where "parse_members (TString ''name'' # TColon # TString s # ts') =
           Some ([(''name'', JString n), (''version'', JString v), (''filename'', JString fn),
                  (''nolib'', JBool False),
                  (''metadata'', JArray (map (\<lambda>(f, i). metadata_entry f i) md))], r)"
      by blast
    from members_first [OF this] show "s = n" by simp
  qed
qed

lemma members_second:
  assumes "parse_members (TString k # TColon # TString a # TComma #
             TString k2 # TColon # TString s # ts) = Some (m1 # (k2', JString v) # ms, r)"
  shows "s = v"
  using assms by (auto simp: members_next dest: members_first)

lemma members_third:
  assumes "parse_members (TString k # TColon # TString a # TComma #
             TString k2 # TColon # TString b # TComma #
             TString k3 # TColon # TString s # ts) = Some (m1 # m2 # (k3', JString v) # ms, r)"
  shows "s = v"
  using assms by (auto simp: members_next dest: members_first)

lemma release_json_version_plain:
  assumes "parse_json (release_json n v fn mj) = Some (release_document n v fn md)"
    and n: "json_plain n"
  shows "json_plain v"
proof -
  define pre where \<open>pre = ''{\<newline>    "releases": [\<newline>        {\<newline>            "name": "'' @ n @
     ''",\<newline>            "version": ''\<close>
  define R where \<open>R = '',\<newline>            "filename": "'' @ fn @
     ''",\<newline>            "nolib": false,\<newline>            "metadata": ['' @ mj @
     ''\<newline>            ]\<newline>        }\<newline>    ]\<newline>}\<newline>''\<close>
  define ptoks where "ptoks = [TLBrace, TString ''releases'', TColon, TLBracket, TLBrace,
      TString ''name'', TColon, TString n, TComma, TString ''version'', TColon]"
  have doc: "release_json n v fn mj = pre @ CHR 0x22 # v @ CHR 0x22 # R"
    by (simp add: release_json_def pre_def R_def)
  from assms obtain ts where ts: "lex (pre @ CHR 0x22 # v @ CHR 0x22 # R) = Some ts"
    and p: "parse_value ts = Some (release_document n v fn md, [])"
    by (auto simp: parse_json_def doc split: option.splits list.splits)
  have s: "\<And>r. lex_string (n @ CHR 0x22 # r) = Some (n, r)"
    using n by (rule lex_string_plain)
  have pre: "\<And>Y. lex (pre @ Y) = map_option ((@) ptoks) (lex Y)"
    subgoal for Y
      by (cases "lex Y") (simp_all add: pre_def ptoks_def lex_punct decoded_def s)
    done
  have tail: "lex_string R = None"
    by (simp add: R_def decoded_def)
  show ?thesis
  proof (rule field_plain [OF ts p pre tail])
    fix s ts'
    assume "parse_value (ptoks @ TString s # ts') = Some (release_document n v fn md, [])"
    then have "parse_value (TLBrace # TString ''releases'' # TColon # TLBracket # TLBrace #
             TString ''name'' # TColon # TString n # TComma # TString ''version'' # TColon #
             TString s # ts') = Some (release_document n v fn md, [])"
      by (simp add: ptoks_def)
    from document_members [OF this]
    obtain r where "parse_members (TString ''name'' # TColon # TString n # TComma #
             TString ''version'' # TColon # TString s # ts') =
           Some ([(''name'', JString n), (''version'', JString v), (''filename'', JString fn),
                  (''nolib'', JBool False),
                  (''metadata'', JArray (map (\<lambda>(f, i). metadata_entry f i) md))], r)"
      by blast
    then show "s = v" by (rule members_second)
  qed
qed

lemma release_json_filename_plain:
  assumes "parse_json (release_json n v fn mj) = Some (release_document n v fn md)"
    and n: "json_plain n" and v: "json_plain v"
  shows "json_plain fn"
proof -
  define pre where \<open>pre = ''{\<newline>    "releases": [\<newline>        {\<newline>            "name": "'' @ n @
     ''",\<newline>            "version": "'' @ v @
     ''",\<newline>            "filename": ''\<close>
  define R where \<open>R = '',\<newline>            "nolib": false,\<newline>            "metadata": ['' @ mj @
     ''\<newline>            ]\<newline>        }\<newline>    ]\<newline>}\<newline>''\<close>
  define ptoks where "ptoks = [TLBrace, TString ''releases'', TColon, TLBracket, TLBrace,
      TString ''name'', TColon, TString n, TComma, TString ''version'', TColon, TString v, TComma,
      TString ''filename'', TColon]"
  have doc: "release_json n v fn mj = pre @ CHR 0x22 # fn @ CHR 0x22 # R"
    by (simp add: release_json_def pre_def R_def)
  from assms obtain ts where ts: "lex (pre @ CHR 0x22 # fn @ CHR 0x22 # R) = Some ts"
    and p: "parse_value ts = Some (release_document n v fn md, [])"
    by (auto simp: parse_json_def doc split: option.splits list.splits)
  have s: "\<And>r. lex_string (n @ CHR 0x22 # r) = Some (n, r)"
    "\<And>r. lex_string (v @ CHR 0x22 # r) = Some (v, r)"
    using n v by (simp_all add: lex_string_plain)
  have pre: "\<And>Y. lex (pre @ Y) = map_option ((@) ptoks) (lex Y)"
    subgoal for Y
      by (cases "lex Y") (simp_all add: pre_def ptoks_def lex_punct decoded_def s)
    done
  have tail: "lex_string R = None"
    by (simp add: R_def decoded_def)
  show ?thesis
  proof (rule field_plain [OF ts p pre tail])
    fix s ts'
    assume "parse_value (ptoks @ TString s # ts') = Some (release_document n v fn md, [])"
    then have "parse_value (TLBrace # TString ''releases'' # TColon # TLBracket # TLBrace #
             TString ''name'' # TColon # TString n # TComma # TString ''version'' # TColon #
             TString v # TComma # TString ''filename'' # TColon #
             TString s # ts') = Some (release_document n v fn md, [])"
      by (simp add: ptoks_def)
    from document_members [OF this]
    obtain r where "parse_members (TString ''name'' # TColon # TString n # TComma #
             TString ''version'' # TColon # TString v # TComma # TString ''filename'' # TColon #
             TString s # ts') =
           Some ([(''name'', JString n), (''version'', JString v), (''filename'', JString fn),
                  (''nolib'', JBool False),
                  (''metadata'', JArray (map (\<lambda>(f, i). metadata_entry f i) md))], r)"
      by blast
    then show "s = fn" by (rule members_third)
  qed
qed

lemma release_json_fields_plain:
  assumes "parse_json (release_json n v fn mj) = Some (release_document n v fn md)"
  shows "json_plain n \<and> json_plain v \<and> json_plain fn"
  using assms release_json_name_plain release_json_version_plain release_json_filename_plain
  by blast

section \<open>The metadata document: properties\<close>

lemma patch_to_flavour_plain:
  assumes "patch_to_flavour patch = Inr f"
  shows "json_plain f"
proof -
  from assms have "f \<in> {''mainline'', ''classic'', ''classic-tbc'', ''classic-wotlk''}"
    by (auto simp: patch_to_flavour_def flavour_table_def split: if_splits option.splits)
  then show ?thesis
    by (auto simp: json_plain_def)
qed

lemma gen_metadata_entries:
  assumes "list_all2 (\<lambda>patch (f, i). patch_to_flavour patch = Inr f \<and>
             patch_to_interface patch = Inr i) ps md"
  shows "gen_metadata ps = Inr (map (\<lambda>(f, i). release_flavour_json f i) md) \<and>
         list_all (\<lambda>(f, i). json_plain f) md"
  using assms
  by (induction rule: list_all2_induct) (auto simp: patch_to_flavour_plain)

lemma gen_metadata_Inr:
  assumes "gen_metadata ps = Inr m"
  shows "\<exists>md. list_all2 (\<lambda>patch (f, i). patch_to_flavour patch = Inr f \<and>
             patch_to_interface patch = Inr i) ps md \<and>
           m = map (\<lambda>(f, i). release_flavour_json f i) md"
  using assms
proof (induction ps arbitrary: m)
  case Nil
  then show ?case by simp
next
  case (Cons p ps)
  from Cons.prems obtain f i m' where f: "patch_to_flavour p = Inr f"
    and i: "patch_to_interface p = Inr i" and m': "gen_metadata ps = Inr m'"
    and m: "m = release_flavour_json f i # m'"
    by (auto split: sum.splits)
  from Cons.IH [OF m'] obtain md where
    md: "list_all2 (\<lambda>patch (f, i). patch_to_flavour patch = Inr f \<and>
             patch_to_interface patch = Inr i) ps md"
    and e: "m' = map (\<lambda>(f, i). release_flavour_json f i) md"
    by blast
  have "list_all2 (\<lambda>patch (f, i). patch_to_flavour patch = Inr f \<and>
             patch_to_interface patch = Inr i) (p # ps) ((f, i) # md)"
    using f i md by simp
  moreover have "m = map (\<lambda>(f, i). release_flavour_json f i) ((f, i) # md)"
    using m e by simp
  ultimately show ?case by blast
qed

lemma demo_plain: "json_plain ''13.33''" "json_plain ''elvui--13.33.zip''" "json_plain ''ElvUI''"
  "json_plain ''mainline''" "json_plain ''classic''"
  by (simp_all add: json_plain_def)

lemma demo_patches:
  "patch_to_flavour ''10.1.0'' = Inr ''mainline''"
  "patch_to_interface ''10.1.0'' = Inr 100100"
  "patch_to_flavour ''1.14.3'' = Inr ''classic''"
  "patch_to_interface ''1.14.3'' = Inr 11400"
  using patch_to_interface_three [of "''10''" 10 "''1''" 1 "''0''"]
    patch_to_interface_three [of "''1''" 1 "''14''" 14 "''3''"]
  by (simp_all add: patch_to_flavour_def flavour_table_def Atoi_def is_digit_def digit_val_def)

lemma escaped_backslash:
  "lex_string ([CHR 0x5C, CHR 0x5C] @ CHR 0x22 # r) = Some ([CHR 0x5C], r)"
  by (simp add: decoded_def simple_escape_def)

text \<open>
  C6, as the code has it. Let the addon's name, its version and the artifact file name be
  plain (no double quote, no backslash, no control character), and let every entry of the
  patch list be accepted by \<^verbatim>\<open>patch_to_flavour\<close> and \<^verbatim>\<open>patch_to_interface\<close>, with the
  results \<open>metadata\<close>. Then \<^verbatim>\<open>gen_release_json\<close> returns a document, and the document
  is JSON text for one object whose \<^verbatim>\<open>releases\<close> array holds exactly one release: the
  addon's name, its version, the artifact file name as \<^verbatim>\<open>filename\<close>, \<^verbatim>\<open>nolib\<close> false, and
  a \<^verbatim>\<open>metadata\<close> array with one \<^verbatim>\<open>{flavor, interface}\<close> object for each entry of the patch
  list, in the order of the patch list. For the empty patch list the array is present and
  empty. Both conditions are needed: a name that is a double quote gives text that is
  not JSON, and a patch of one byte makes the function panic.
\<close>

theorem gen_release_json_document:
  assumes "json_plain (Name addon)" and "json_plain (Version addon)"
    and "json_plain zip_output_filename"
    and "list_all2 (\<lambda>patch (f, i). patch_to_flavour patch = Inr f \<and>
           patch_to_interface patch = Inr i) (PatchList addon) metadata"
  shows "length metadata = length (PatchList addon) \<and>
         (\<exists>doc. gen_release_json addon addon_output_path zip_output_filename = Inr doc \<and>
            parse_json doc =
              Some (release_document (Name addon) (Version addon) zip_output_filename metadata))"
proof -
  from gen_metadata_entries [OF assms(4)]
  have m: "gen_metadata (PatchList addon) =
             Inr (map (\<lambda>(f, i). release_flavour_json f i) metadata)"
    and p: "list_all (\<lambda>(f, i). json_plain f) metadata"
    by simp_all
  from assms(4) have "length metadata = length (PatchList addon)"
    by (simp add: list_all2_lengthD)
  then show ?thesis
    by (simp add: gen_release_json_def m release_json_reads_back [OF assms(1-3) p])
qed

theorem gen_release_json_document_witness:
  "json_plain ''ElvUI'' \<and> json_plain ''13.33'' \<and> json_plain ''elvui--13.33.zip'' \<and>
   patch_to_flavour ''10.1.0'' = Inr ''mainline'' \<and> patch_to_interface ''10.1.0'' = Inr 100100 \<and>
   patch_to_flavour ''1.14.3'' = Inr ''classic'' \<and> patch_to_interface ''1.14.3'' = Inr 11400 \<and>
   gen_release_json (demo_addon\<lparr>PatchList := [''10.1.0'', ''1.14.3'']\<rparr>)
       ''/srv/elvui'' ''elvui--13.33.zip'' =
     Inr (release_json ''ElvUI'' ''13.33'' ''elvui--13.33.zip''
            (release_flavour_json ''mainline'' 100100 @ '', '' @
             release_flavour_json ''classic'' 11400)) \<and>
   parse_json (release_json ''ElvUI'' ''13.33'' ''elvui--13.33.zip''
            (release_flavour_json ''mainline'' 100100 @ '', '' @
             release_flavour_json ''classic'' 11400)) =
     Some (JObject
       [(''releases'',
         JArray
           [JObject
              [(''name'', JString ''ElvUI''),
               (''version'', JString ''13.33''),
               (''filename'', JString ''elvui--13.33.zip''),
               (''nolib'', JBool False),
               (''metadata'',
                JArray
                  [JObject [(''flavor'', JString ''mainline''), (''interface'', JInt 100100)],
                   JObject [(''flavor'', JString ''classic''), (''interface'', JInt 11400)]])]])]) \<and>
   gen_release_json (demo_addon\<lparr>PatchList := []\<rparr>) ''/srv/elvui'' ''elvui--13.33.zip'' =
     Inr (release_json ''ElvUI'' ''13.33'' ''elvui--13.33.zip'' []) \<and>
   parse_json (release_json ''ElvUI'' ''13.33'' ''elvui--13.33.zip'' []) =
     Some (JObject
       [(''releases'',
         JArray
           [JObject
              [(''name'', JString ''ElvUI''),
               (''version'', JString ''13.33''),
               (''filename'', JString ''elvui--13.33.zip''),
               (''nolib'', JBool False),
               (''metadata'', JArray [])]])])"
proof -
  have g2: "gen_release_json (demo_addon\<lparr>PatchList := [''10.1.0'', ''1.14.3'']\<rparr>)
       ''/srv/elvui'' ''elvui--13.33.zip'' =
     Inr (release_json ''ElvUI'' ''13.33'' ''elvui--13.33.zip''
            (release_flavour_json ''mainline'' 100100 @ '', '' @
             release_flavour_json ''classic'' 11400))"
    and g0: "gen_release_json (demo_addon\<lparr>PatchList := []\<rparr>) ''/srv/elvui'' ''elvui--13.33.zip'' =
     Inr (release_json ''ElvUI'' ''13.33'' ''elvui--13.33.zip'' [])"
    by (simp_all add: gen_release_json_def demo_addon_sel demo_patches)
  show ?thesis
    using gen_release_json_document [of "demo_addon\<lparr>PatchList := [''10.1.0'', ''1.14.3'']\<rparr>"
        "''elvui--13.33.zip''" "[(''mainline'', 100100), (''classic'', 11400)]" "''/srv/elvui''"]
      gen_release_json_document [of "demo_addon\<lparr>PatchList := []\<rparr>"
        "''elvui--13.33.zip''" "[]" "''/srv/elvui''"]
    by (simp add: g2 g0 demo_addon_sel demo_patches demo_plain release_document_def
        metadata_entry_def)
qed

theorem gen_release_json_document_counterexample:
  \<open>gen_release_json (demo_addon\<lparr>Name := ''"''\<rparr>) ''/srv/elvui'' ''elvui--13.33.zip'' =
     Inr (release_json ''"'' ''13.33'' ''elvui--13.33.zip''
            (release_flavour_json ''mainline'' 100100)) \<and>
   parse_json (release_json ''"'' ''13.33'' ''elvui--13.33.zip''
            (release_flavour_json ''mainline'' 100100)) = None \<and>
   gen_release_json (demo_addon\<lparr>PatchList := [''1'']\<rparr>) ''/srv/elvui'' ''elvui--13.33.zip'' =
     Inl (SliceBoundsOutOfRange 2 1)\<close>
proof -
  have \<open>lex (release_json ''"'' ''13.33'' ''elvui--13.33.zip''
            (release_flavour_json ''mainline'' 100100)) = None\<close>
    by (simp add: release_json_def lex_punct decoded_def)
  moreover have "gen_release_json (demo_addon\<lparr>PatchList := [''1'']\<rparr>) ''/srv/elvui''
      ''elvui--13.33.zip'' = Inl (SliceBoundsOutOfRange 2 1)"
    by (simp add: gen_release_json_def patch_to_flavour_def)
  ultimately show ?thesis
    by (simp add: parse_json_def gen_release_json_def demo_addon_sel demo_patches)
qed

text \<open>
  C10, as the code has it. \<^verbatim>\<open>gen_release_json\<close> puts the addon's name, its version and
  the artifact file name into the template as they are. The text it returns is JSON text
  for the release document that carries these three values exactly when all three are
  plain (no double quote, no backslash, no control character). With a field that is not
  plain the text is either not JSON at all or JSON with other content: a name of two
  backslashes gives well-formed text, of the shape of a release document, whose name is
  one backslash.
\<close>

theorem gen_release_json_unescaped:
  assumes "gen_release_json addon addon_output_path zip_output_filename = Inr doc"
  shows "(\<exists>m. gen_metadata (PatchList addon) = Inr m \<and>
            doc = release_json (Name addon) (Version addon) zip_output_filename (Join m '', ''))
         \<and>
         ((\<exists>metadata. parse_json doc =
              Some (release_document (Name addon) (Version addon) zip_output_filename metadata))
          = (json_plain (Name addon) \<and> json_plain (Version addon) \<and>
             json_plain zip_output_filename))"
proof -
  from assms obtain m where m: "gen_metadata (PatchList addon) = Inr m"
    and doc: "doc = release_json (Name addon) (Version addon) zip_output_filename (Join m '', '')"
    by (auto simp: gen_release_json_def split: sum.splits)
  from gen_metadata_Inr [OF m] obtain md where
    md: "list_all2 (\<lambda>patch (f, i). patch_to_flavour patch = Inr f \<and>
             patch_to_interface patch = Inr i) (PatchList addon) md"
    and e: "m = map (\<lambda>(f, i). release_flavour_json f i) md"
    by blast
  from gen_metadata_entries [OF md] have p: "list_all (\<lambda>(f, i). json_plain f) md"
    by simp
  have "\<exists>metadata. parse_json doc =
      Some (release_document (Name addon) (Version addon) zip_output_filename metadata)"
    if "json_plain (Name addon)" "json_plain (Version addon)" "json_plain zip_output_filename"
    using release_json_reads_back [OF that p] doc e by blast
  moreover have "json_plain (Name addon) \<and> json_plain (Version addon) \<and>
             json_plain zip_output_filename"
    if "parse_json doc =
      Some (release_document (Name addon) (Version addon) zip_output_filename metadata)"
    for metadata
    using that release_json_fields_plain unfolding doc by blast
  ultimately show ?thesis
    using m doc by blast
qed

theorem gen_release_json_unescaped_witness:
  \<open>gen_release_json demo_addon ''/srv/elvui'' ''elvui--13.33.zip'' = Inr demo_doc \<and>
   json_plain ''ElvUI'' \<and> json_plain ''13.33'' \<and> json_plain ''elvui--13.33.zip'' \<and>
   (\<exists>metadata. parse_json demo_doc =
      Some (release_document ''ElvUI'' ''13.33'' ''elvui--13.33.zip'' metadata)) \<and>
   gen_release_json (demo_addon\<lparr>Name := ''Elv"UI''\<rparr>) ''/srv/elvui'' ''elvui--13.33.zip'' =
     Inr (release_json ''Elv"UI'' ''13.33'' ''elvui--13.33.zip''
            (release_flavour_json ''mainline'' 100100)) \<and>
   \<not> json_plain ''Elv"UI'' \<and>
   (\<forall>metadata. parse_json (release_json ''Elv"UI'' ''13.33'' ''elvui--13.33.zip''
            (release_flavour_json ''mainline'' 100100)) \<noteq>
      Some (release_document ''Elv"UI'' ''13.33'' ''elvui--13.33.zip'' metadata))\<close>
proof -
  have g: \<open>gen_release_json (demo_addon\<lparr>Name := ''Elv"UI''\<rparr>) ''/srv/elvui'' ''elvui--13.33.zip'' =
     Inr (release_json ''Elv"UI'' ''13.33'' ''elvui--13.33.zip''
            (release_flavour_json ''mainline'' 100100))\<close>
    by (simp add: gen_release_json_def demo_addon_def demo_patches)
  show ?thesis
    using gen_release_json_unescaped [OF demo_gen_release_json]
      gen_release_json_unescaped [OF g]
    by (simp add: demo_addon_sel json_plain_def g demo_gen_release_json)
qed

theorem gen_release_json_unescaped_counterexample:
  "\<not> json_plain [CHR 0x5C, CHR 0x5C] \<and>
   gen_release_json (demo_addon\<lparr>Name := [CHR 0x5C, CHR 0x5C]\<rparr>) ''/srv/elvui'' ''elvui--13.33.zip'' =
     Inr (release_json [CHR 0x5C, CHR 0x5C] ''13.33'' ''elvui--13.33.zip''
            (release_flavour_json ''mainline'' 100100)) \<and>
   parse_json (release_json [CHR 0x5C, CHR 0x5C] ''13.33'' ''elvui--13.33.zip''
            (release_flavour_json ''mainline'' 100100)) =
     Some (release_document [CHR 0x5C] ''13.33'' ''elvui--13.33.zip'' [(''mainline'', 100100)])"
proof -
  have "parse_json (release_json [CHR 0x5C, CHR 0x5C] ''13.33'' ''elvui--13.33.zip''
            (Join (map (\<lambda>(f, i). release_flavour_json f i) [(''mainline'', 100100)]) '', '')) =
     Some (release_document [CHR 0x5C] ''13.33'' ''elvui--13.33.zip'' [(''mainline'', 100100)])"
    by (rule release_json_reads_decoded [OF escaped_backslash
          lex_string_plain [OF demo_plain(1)] lex_string_plain [OF demo_plain(2)]])
      (simp add: demo_plain)
  then show ?thesis
    by (simp add: gen_release_json_def demo_addon_def demo_patches json_plain_def)
qed

end
